theory Spec2Isabelle
  imports Main "HOL-Library.Word" "HOL-Library.Log_Nat" "HOL-Library.Multiset"
begin

section \<open>KanagawaEngine: a shallow embedding of \<^verbatim>\<open>Sources/KanagawaEngine.cpp\<close>\<close>

text \<open>
  The program is a single C file: a sampler of \<^verbatim>\<open>/proc/stat\<close>, a resolver that picks a
  frequency out of a policy's \<^verbatim>\<open>scaling_available_frequencies\<close>, a profile applier that
  writes \<^verbatim>\<open>scaling_max_freq\<close> and \<^verbatim>\<open>scaling_min_freq\<close>, and an endless control loop.
  Every function of the file is translated below under its own name. What the C library
  and the kernel answer is an explicit parameter (the \<open>world\<close>); what the program writes is
  an explicit trace.
\<close>

subsection \<open>Constants\<close>

definition MONITOR_INTERVAL_SEC :: nat where "MONITOR_INTERVAL_SEC = 5"
definition CPU_USAGE_THRESHOLD :: int where "CPU_USAGE_THRESHOLD = 40"
definition MAX_PATH :: nat where "MAX_PATH = 256"
definition MAX_FREQ_BUF :: nat where "MAX_FREQ_BUF = 4096"
definition SYS_CPU_BASE :: string where "SYS_CPU_BASE = ''/sys/devices/system/cpu/cpufreq''"

subsection \<open>Floating point\<close>

text \<open>
  \<^verbatim>\<open>float\<close> and \<^verbatim>\<open>double\<close> values are modelled by the rational number they denote
  (no NaN and no infinity: the program produces neither from finite operands of the sizes
  it handles). Each IEEE operation is the exact operation followed by rounding to nearest,
  ties to even, at the format's precision: \<open>fl_round P qmin\<close> rounds to \<open>P\<close> significant
  bits, with \<open>2 powi qmin\<close> the spacing of the subnormal numbers.
\<close>

definition ilog2 :: "rat \<Rightarrow> int" where
  "ilog2 x = (if 1 \<le> x then bitlen \<lfloor>x\<rfloor> - 1 else - bitlen (\<lceil>1 / x\<rceil> - 1))"

definition round_even :: "rat \<Rightarrow> int" where
  "round_even y =
     (let n = \<lfloor>y\<rfloor>; r = y - of_int n
      in if r < 1 / 2 then n
         else if 1 / 2 < r then n + 1
         else if even n then n else n + 1)"

definition fl_round :: "nat \<Rightarrow> int \<Rightarrow> rat \<Rightarrow> rat" where
  "fl_round P qmin x =
     (if x = 0 then 0
      else let q = max (ilog2 \<bar>x\<bar> - (int P - 1)) qmin
           in sgn x * of_int (round_even (\<bar>x\<bar> / 2 powi q)) * 2 powi q)"

definition f32 :: "rat \<Rightarrow> rat" where
  "f32 x = fl_round 24 (- 149) x"

definition f64 :: "rat \<Rightarrow> rat" where
  "f64 x = fl_round 53 (- 1074) x"

text \<open>
  The conversion \<^verbatim>\<open>(int) x\<close> of a floating value truncates towards zero; C leaves it
  undefined when the truncated value is outside \<^verbatim>\<open>int\<close>, which is \<open>None\<close> here.
\<close>

definition int_of_float :: "rat \<Rightarrow> int option" where
  "int_of_float x =
     (let t = (if 0 \<le> x then \<lfloor>x\<rfloor> else \<lceil>x\<rceil>)
      in if - (2 ^ 31) \<le> t \<and> t < 2 ^ 31 then Some t else None)"

subsection \<open>The C library's text functions\<close>

text \<open>
  \<^verbatim>\<open>isspace\<close> in the C locale, the digits, and the number that \<^verbatim>\<open>strtol\<close> reads in
  base 10: leading white space, an optional sign, then digits. \<open>parse_int\<close> is \<open>None\<close> when
  no digit follows. \<^verbatim>\<open>atoi\<close> answers 0 then; \<^verbatim>\<open>fscanf("%d")\<close> stores nothing then.
  A number outside \<^verbatim>\<open>int\<close> is read as on the 64-bit targets of the program:
  \<^verbatim>\<open>strtol\<close> saturates at the range of \<^verbatim>\<open>long\<close> (64 bits) and storing its result in an
  \<^verbatim>\<open>int\<close> keeps the low 32 bits, so the value wraps around (\<open>int_of_long\<close>). Every
  \<^verbatim>\<open>int\<close> of the program is therefore an integer in \<open>[- 2 ^ 31, 2 ^ 31)\<close>.
\<close>

definition isspace :: "char \<Rightarrow> bool" where
  "isspace c = (c \<in> set [CHR '' '', CHR 0x09, CHR 0x0A, CHR 0x0B, CHR 0x0C, CHR 0x0D])"

definition isdigit :: "char \<Rightarrow> bool" where
  "isdigit c = (48 \<le> (of_char c :: nat) \<and> (of_char c :: nat) \<le> 57)"

definition digit_val :: "char \<Rightarrow> int" where
  "digit_val c = int (of_char c) - 48"

fun digits_val :: "int \<Rightarrow> string \<Rightarrow> int" where
  "digits_val acc [] = acc"
| "digits_val acc (c # cs) = digits_val (10 * acc + digit_val c) cs"

definition parse_digits :: "string \<Rightarrow> int option" where
  "parse_digits s =
     (let ds = takeWhile isdigit s in if ds = [] then None else Some (digits_val 0 ds))"

definition strtol10 :: "string \<Rightarrow> int option" where
  "strtol10 s =
     (case dropWhile isspace s of
        [] \<Rightarrow> None
      | c # cs \<Rightarrow>
          if c = CHR ''-'' then map_option uminus (parse_digits cs)
          else if c = CHR ''+'' then parse_digits cs
          else parse_digits (c # cs))"

definition int_of_long :: "int \<Rightarrow> int" where
  "int_of_long v =
     (let l = max (- (2 ^ 63)) (min (2 ^ 63 - 1) v) in (l + 2 ^ 31) mod 2 ^ 32 - 2 ^ 31)"

definition parse_int :: "string \<Rightarrow> int option" where
  "parse_int s = map_option int_of_long (strtol10 s)"

definition atoi :: "string \<Rightarrow> int" where
  "atoi s = (case parse_int s of None \<Rightarrow> 0 | Some v \<Rightarrow> v)"

text \<open>
  \<^verbatim>\<open>fgets(buf, n, fp)\<close> on a freshly opened file: \<open>None\<close> (the null pointer) at end of
  file, else at most \<open>n - 1\<close> characters, up to and including the first newline. The
  buffer is then read as a C string, which ends at the first NUL.
\<close>

fun upto_newline :: "string \<Rightarrow> string" where
  "upto_newline [] = []"
| "upto_newline (c # cs) = (if c = CHR 0x0A then [c] else c # upto_newline cs)"

definition fgets :: "nat \<Rightarrow> string \<Rightarrow> string option" where
  "fgets n content =
     (if content = [] then None
      else Some (takeWhile (\<lambda>c. c \<noteq> CHR 0x00) (upto_newline (take (n - 1) content))))"

text \<open>
  The tokens that the calls \<^verbatim>\<open>strtok(buf, " \n")\<close>, \<^verbatim>\<open>strtok(NULL, " \n")\<close>, ... return
  in turn: the maximal runs of characters other than space and newline.
\<close>

definition is_delim :: "char \<Rightarrow> bool" where
  "is_delim c = (c = CHR '' '' \<or> c = CHR 0x0A)"

fun strtok_from :: "string \<Rightarrow> string \<Rightarrow> string list" where
  "strtok_from cur [] = (if cur = [] then [] else [cur])"
| "strtok_from cur (c # cs) =
     (if is_delim c then (if cur = [] then strtok_from [] cs else cur # strtok_from [] cs)
      else strtok_from (cur @ [c]) cs)"

definition strtok_all :: "string \<Rightarrow> string list" where
  "strtok_all buf = strtok_from [] buf"

text \<open>\<^verbatim>\<open>snprintf(buf, n, ...)\<close> keeps the first \<open>n - 1\<close> characters of the formatted text.\<close>

definition snprintf :: "nat \<Rightarrow> string \<Rightarrow> string" where
  "snprintf n s = take (n - 1) s"

text \<open>The text of \<^verbatim>\<open>"%d"\<close>: decimal digits, with a minus sign for a negative number.\<close>

definition digit_char :: "nat \<Rightarrow> char" where
  "digit_char d = ''0123456789'' ! d"

fun dec_nat :: "nat \<Rightarrow> string" where
  "dec_nat n = (if n < 10 then [digit_char n] else dec_nat (n div 10) @ [digit_char (n mod 10)])"

declare dec_nat.simps [simp del]

definition dec_int :: "int \<Rightarrow> string" where
  "dec_int i = (if i < 0 then CHR ''-'' # dec_nat (nat (- i)) else dec_nat (nat i))"

subsection \<open>The world outside the program\<close>

text \<open>
  The program reads kernel files whose content changes under it, so what it sees is a
  function of time. Time is counted in calls that open something (\<^verbatim>\<open>fopen\<close>,
  \<^verbatim>\<open>open\<close>, \<^verbatim>\<open>opendir\<close>): the call made at time \<open>t\<close> sees \<open>w t\<close>.
  \<^item> \<open>files\<close>: the content that \<^verbatim>\<open>fopen(path, "r")\<close> gives access to, \<open>None\<close> when it
    returns the null pointer;
  \<^item> \<open>writable\<close>: whether \<^verbatim>\<open>open(path, O_WRONLY)\<close> succeeds;
  \<^item> \<open>dirs\<close>: the names that \<^verbatim>\<open>readdir\<close> lists, \<open>None\<close> when \<^verbatim>\<open>opendir\<close> fails;
  \<^item> \<open>proc_stat\<close>: the eight counters that \<^verbatim>\<open>fscanf\<close> converts from the first line of
    \<^verbatim>\<open>/proc/stat\<close>, \<open>None\<close> when \<^verbatim>\<open>fopen\<close> fails. A first line that is not a label of
    at most 9 characters and eight numbers is outside the model (the C code reads
    uninitialised variables or overruns \<^verbatim>\<open>label\<close> there).
\<close>

type_synonym u64 = "64 word"

record cpu_fields =
  f_user :: u64
  f_nice :: u64
  f_system :: u64
  f_idl :: u64
  f_iowait :: u64
  f_irq :: u64
  f_softirq :: u64
  f_steal :: u64

record fs =
  proc_stat :: "cpu_fields option"
  files :: "string \<Rightarrow> string option"
  writable :: "string \<Rightarrow> bool"
  dirs :: "string \<Rightarrow> string list option"

type_synonym world = "nat \<Rightarrow> fs"

text \<open>
  The program's effects: \<open>trace\<close> lists, in order, each \<^verbatim>\<open>write(fd, value, strlen(value))\<close>
  as the pair of the path opened and the text written; \<open>stdout\<close> lists what was printed.
\<close>

record io =
  clock :: nat
  trace :: "(string \<times> string) list"
  stdout :: "string list"

subsection \<open>\<^verbatim>\<open>write_to_file\<close> and \<^verbatim>\<open>write_int_to_file\<close>\<close>

definition write_to_file :: "world \<Rightarrow> string \<Rightarrow> string \<Rightarrow> io \<Rightarrow> io" where
  "write_to_file w path val s =
     (if writable (w (clock s)) path
      then s\<lparr>clock := clock s + 1, trace := trace s @ [(path, val)]\<rparr>
      else s\<lparr>clock := clock s + 1\<rparr>)"

definition write_int_to_file :: "world \<Rightarrow> string \<Rightarrow> int \<Rightarrow> io \<Rightarrow> io" where
  "write_int_to_file w path val s = write_to_file w path (snprintf 32 (dec_int val)) s"

subsection \<open>\<^verbatim>\<open>get_cpu_times\<close>\<close>

text \<open>
  The two out-parameters are passed in and returned. When \<^verbatim>\<open>fopen\<close> fails the function
  returns at once and they keep the values they had.
\<close>

definition get_cpu_times :: "world \<Rightarrow> nat \<Rightarrow> u64 \<times> u64 \<Rightarrow> (u64 \<times> u64) \<times> nat" where
  "get_cpu_times w t out =
     (case proc_stat (w t) of
        None \<Rightarrow> (out, t + 1)
      | Some c \<Rightarrow>
          ((f_idl c + f_iowait c,
            f_user c + f_nice c + f_system c + f_idl c + f_iowait c + f_irq c + f_softirq c
              + f_steal c),
           t + 1))"

subsection \<open>\<^verbatim>\<open>get_target_freq\<close>\<close>

text \<open>The loop that fills \<^verbatim>\<open>freqs\<close>: it stops at the last token or at 100 entries.\<close>

fun parse_loop :: "string list \<Rightarrow> int list \<Rightarrow> int list" where
  "parse_loop [] freqs = freqs"
| "parse_loop (token # rest) freqs =
     (if length freqs < 100 then parse_loop rest (freqs @ [atoi token]) else freqs)"

text \<open>
  The bubble sort, on the first \<open>cnt\<close> entries of the array (\<open>cnt\<close> is the C variable
  \<^verbatim>\<open>count\<close>). The C conditions \<^verbatim>\<open>j < count - i - 1\<close> and \<^verbatim>\<open>i < count - 1\<close> are on
  \<^verbatim>\<open>int\<close>; they are written here with the subtraction moved to the other side, which is
  the same condition without truncation.
\<close>

function inner_loop :: "int list \<Rightarrow> nat \<Rightarrow> nat \<Rightarrow> nat \<Rightarrow> int list" where
  "inner_loop freqs cnt i j =
     (if j + i + 1 < cnt
      then inner_loop
             (if freqs ! j > freqs ! (j + 1)
              then (let temp = freqs ! j in (freqs[j := freqs ! (j + 1)])[j + 1 := temp])
              else freqs)
             cnt i (j + 1)
      else freqs)"
  by pat_completeness auto
termination
  by (relation "measure (\<lambda>(freqs, cnt, i, j). cnt - j)") auto

declare inner_loop.simps [simp del]

function outer_loop :: "int list \<Rightarrow> nat \<Rightarrow> nat \<Rightarrow> int list" where
  "outer_loop freqs cnt i =
     (if i + 1 < cnt then outer_loop (inner_loop freqs cnt i 0) cnt (i + 1) else freqs)"
  by pat_completeness auto
termination
  by (relation "measure (\<lambda>(freqs, cnt, i). cnt - i)") auto

declare outer_loop.simps [simp del]

text \<open>
  Lines 86 to 114: from the tokens to the result. \<open>None\<close> is an undefined read: the
  conversion to \<^verbatim>\<open>int\<close> is out of range, or \<^verbatim>\<open>freqs[index]\<close> has a negative index.
  \<^verbatim>\<open>count * percent\<close> converts \<open>count\<close> to \<^verbatim>\<open>float\<close> and rounds the product to \<^verbatim>\<open>float\<close>
  (\<^verbatim>\<open>FLT_EVAL_METHOD\<close> 0, as on ARM and x86-64).
\<close>

definition percent_index :: "nat \<Rightarrow> rat \<Rightarrow> int option" where
  "percent_index cnt percent =
     (case int_of_float (f32 (f32 (of_nat cnt) * percent)) of
        None \<Rightarrow> None
      | Some index \<Rightarrow> Some (if index \<ge> int cnt then int cnt - 1 else index))"

definition get_target_freq_tokens :: "string list \<Rightarrow> rat \<Rightarrow> bool \<Rightarrow> bool \<Rightarrow> int option" where
  "get_target_freq_tokens tokens percent return_abs_max return_abs_min =
     (let freqs = parse_loop tokens []; count = length freqs
      in if count = 0 then Some 0
         else let freqs = outer_loop freqs count 0
              in if return_abs_max then Some (freqs ! (count - 1))
                 else if return_abs_min then Some (freqs ! 0)
                 else (case percent_index count percent of
                         None \<Rightarrow> None
                       | Some index \<Rightarrow> if 0 \<le> index then Some (freqs ! nat index) else None))"

text \<open>
  The whole function. It returns the result and the time after its calls of \<^verbatim>\<open>fopen\<close>.
  In the fallback \<^verbatim>\<open>fscanf(fp, "%d", &val)\<close> is not checked: when it converts nothing,
  the function returns the uninitialised \<^verbatim>\<open>val\<close>, which is \<open>None\<close>.
\<close>

definition avail_path_of :: "string \<Rightarrow> string" where
  "avail_path_of policy_path = snprintf MAX_PATH (policy_path @ ''/scaling_available_frequencies'')"

definition cpuinfo_path_of :: "string \<Rightarrow> string" where
  "cpuinfo_path_of policy_path = snprintf MAX_PATH (policy_path @ ''/cpuinfo_max_freq'')"

definition get_target_freq ::
    "world \<Rightarrow> nat \<Rightarrow> string \<Rightarrow> rat \<Rightarrow> bool \<Rightarrow> bool \<Rightarrow> int option \<times> nat" where
  "get_target_freq w t policy_path percent return_abs_max return_abs_min =
     (case files (w t) (avail_path_of policy_path) of
        None \<Rightarrow>
          if return_abs_max
          then (case files (w (t + 1)) (cpuinfo_path_of policy_path) of
                  Some content \<Rightarrow> (parse_int content, t + 2)
                | None \<Rightarrow> (Some 0, t + 2))
          else (Some 0, t + 1)
      | Some content \<Rightarrow>
          (case fgets MAX_FREQ_BUF content of
             None \<Rightarrow> (Some 0, t + 1)
           | Some buf \<Rightarrow>
               (get_target_freq_tokens (strtok_all buf) percent return_abs_max return_abs_min,
                t + 1)))"

subsection \<open>\<^verbatim>\<open>apply_profile\<close>\<close>

definition policy_path_of :: "string \<Rightarrow> string" where
  "policy_path_of d_name = snprintf MAX_PATH (SYS_CPU_BASE @ ''/'' @ d_name)"

definition min_node_of :: "string \<Rightarrow> string" where
  "min_node_of policy_path = snprintf MAX_PATH (policy_path @ ''/scaling_min_freq'')"

definition max_node_of :: "string \<Rightarrow> string" where
  "max_node_of policy_path = snprintf MAX_PATH (policy_path @ ''/scaling_max_freq'')"

text \<open>
  Lines 137 to 161, for a policy whose two absolute bounds are known: the percentile
  target is read and the two nodes are written. \<open>None\<close>: the program has used an
  undefined value.
\<close>

definition apply_bounds :: "world \<Rightarrow> bool \<Rightarrow> string \<Rightarrow> int \<Rightarrow> int \<Rightarrow> io \<Rightarrow> io option" where
  "apply_bounds w is_high_load policy_path absolute_max absolute_min s =
     (let min_node = min_node_of policy_path; max_node = max_node_of policy_path
      in if is_high_load
         then (case get_target_freq w (clock s) policy_path (3 / 4) False False of
                 (r, t3) \<Rightarrow>
                   (case r of
                      None \<Rightarrow> None
                    | Some target_75 \<Rightarrow>
                        Some (write_int_to_file w min_node target_75
                               (write_int_to_file w max_node absolute_max (s\<lparr>clock := t3\<rparr>)))))
         else (case get_target_freq w (clock s) policy_path (1 / 2) False False of
                 (r, t3) \<Rightarrow>
                   (case r of
                      None \<Rightarrow> None
                    | Some target_50 \<Rightarrow>
                        Some (write_int_to_file w max_node target_50
                               (write_int_to_file w min_node absolute_min (s\<lparr>clock := t3\<rparr>))))))"

text \<open>
  The body of the \<^verbatim>\<open>while\<close> loop for one directory entry: lines 126 to 135, then
  \<open>apply_bounds\<close>.
\<close>

definition apply_entry :: "world \<Rightarrow> bool \<Rightarrow> string \<Rightarrow> io \<Rightarrow> io option" where
  "apply_entry w is_high_load d_name s =
     (if take 6 d_name = ''policy''
      then
        (let policy_path = policy_path_of d_name;
             r_max = get_target_freq w (clock s) policy_path 1 True False;
             r_min = get_target_freq w (snd r_max) policy_path 0 False True
         in (case fst r_max of
               None \<Rightarrow> None
             | Some absolute_max \<Rightarrow>
                 (case fst r_min of
                    None \<Rightarrow> None
                  | Some absolute_min \<Rightarrow>
                      (if absolute_max = 0 \<or> absolute_min = 0
                       then Some (s\<lparr>clock := snd r_min\<rparr>)
                       else apply_bounds w is_high_load policy_path absolute_max absolute_min
                              (s\<lparr>clock := snd r_min\<rparr>)))))
      else Some s)"

fun apply_entries :: "world \<Rightarrow> bool \<Rightarrow> string list \<Rightarrow> io \<Rightarrow> io option" where
  "apply_entries w is_high_load [] s = Some s"
| "apply_entries w is_high_load (d_name # rest) s =
     (case apply_entry w is_high_load d_name s of
        None \<Rightarrow> None
      | Some s' \<Rightarrow> apply_entries w is_high_load rest s')"

definition apply_profile :: "world \<Rightarrow> bool \<Rightarrow> io \<Rightarrow> io option" where
  "apply_profile w is_high_load s =
     (case dirs (w (clock s)) SYS_CPU_BASE of
        None \<Rightarrow> Some (s\<lparr>clock := clock s + 1\<rparr>)
      | Some entries \<Rightarrow> apply_entries w is_high_load entries (s\<lparr>clock := clock s + 1\<rparr>))"

subsection \<open>\<^verbatim>\<open>main\<close>\<close>

record main_state =
  prev_idle :: u64
  prev_total :: u64
  curr_idle :: u64
  curr_total :: u64
  io :: io

text \<open>
  Lines 182 to 188. The differences are on \<^verbatim>\<open>unsigned long long\<close> and wrap around; the
  quotient is computed in \<^verbatim>\<open>double\<close>: both operands converted, the product and the
  quotient rounded.
\<close>

definition usage_of :: "u64 \<Rightarrow> u64 \<Rightarrow> rat" where
  "usage_of diff_total diff_idle =
     (if diff_total > 0
      then f64 (f64 (100 * f64 (of_nat (unat (diff_total - diff_idle))))
                / f64 (of_nat (unat diff_total)))
      else 0)"

definition usage :: "main_state \<Rightarrow> rat" where
  "usage st = usage_of (curr_total st - prev_total st) (curr_idle st - prev_idle st)"

text \<open>Lines 168 to 175: the variables, the baseline read and the line printed.\<close>

definition main_init :: "world \<Rightarrow> main_state" where
  "main_init w =
     (case get_cpu_times w 0 (0, 0) of
        ((idle, tot), t) \<Rightarrow>
          \<lparr>prev_idle = idle, prev_total = tot, curr_idle = 0, curr_total = 0,
           io = \<lparr>clock = t, trace = [], stdout = [''Kanagawa Engine (Standard) Started.\<newline>'']\<rparr>\<rparr>)"

text \<open>
  Lines 178 to 198: one turn of the loop, in two steps. \<open>sample\<close> is the call of
  \<^verbatim>\<open>get_cpu_times\<close>; \<open>main_iter\<close> computes the usage from the sampled state, moves the
  current counters to the previous ones and applies the profile. \<^verbatim>\<open>sleep\<close> changes
  nothing that the program holds.
\<close>

definition sample :: "world \<Rightarrow> main_state \<Rightarrow> main_state" where
  "sample w st =
     (case get_cpu_times w (clock (io st)) (curr_idle st, curr_total st) of
        ((idle, tot), t) \<Rightarrow>
          st\<lparr>curr_idle := idle, curr_total := tot, io := (io st)\<lparr>clock := t\<rparr>\<rparr>)"

definition main_iter :: "world \<Rightarrow> main_state \<Rightarrow> main_state option" where
  "main_iter w st0 =
     (let st = sample w st0;
          u = usage st;
          st' = st\<lparr>prev_idle := curr_idle st, prev_total := curr_total st\<rparr>
      in case apply_profile w (u > f64 (of_int CPU_USAGE_THRESHOLD)) (io st') of
           None \<Rightarrow> None
         | Some s \<Rightarrow> Some (st'\<lparr>io := s\<rparr>))"

text \<open>
  \<^verbatim>\<open>while (1)\<close> never ends; \<open>main_loop n\<close> is the state after \<open>n\<close> turns, and \<open>main n\<close>
  the program run for \<open>n\<close> turns.
\<close>

fun main_loop :: "world \<Rightarrow> nat \<Rightarrow> main_state \<Rightarrow> main_state option" where
  "main_loop w 0 st = Some st"
| "main_loop w (Suc n) st =
     (case main_iter w st of None \<Rightarrow> None | Some st' \<Rightarrow> main_loop w n st')"

definition main :: "world \<Rightarrow> nat \<Rightarrow> main_state option" where
  "main w n = main_loop w n (main_init w)"

subsection \<open>Auxiliary definitions\<close>

text \<open>
  The invariant of the outer loop of the bubble sort: from position \<open>k\<close> on, the array
  is ascending and holds the largest entries.
\<close>

definition bubbled :: "nat \<Rightarrow> int list \<Rightarrow> bool" where
  "bubbled k xs =
     (sorted (drop k xs) \<and> (\<forall>x \<in> set (take k xs). \<forall>y \<in> set (drop k xs). x \<le> y))"

text \<open>
  A file system for examples: the counters of \<^verbatim>\<open>/proc/stat\<close>, the readable files with
  their content, and the entries of the cpufreq directory. Every path can be opened for
  writing.
\<close>

definition mk_fs :: "cpu_fields option \<Rightarrow> (string \<times> string) list \<Rightarrow> string list \<Rightarrow> fs" where
  "mk_fs stat contents entries =
     \<lparr>proc_stat = stat, files = map_of contents, writable = (\<lambda>path. True),
      dirs = (\<lambda>d. if d = SYS_CPU_BASE then Some entries else None)\<rparr>"

definition policy0 :: string where
  "policy0 = ''/sys/devices/system/cpu/cpufreq/policy0''"

definition policy1 :: string where
  "policy1 = ''/sys/devices/system/cpu/cpufreq/policy1''"

text \<open>
  What \<^verbatim>\<open>write_int_to_file(path, v)\<close>, called at time \<open>t\<close>, adds to the trace: one write of
  the decimal text, or nothing when the node cannot be opened for writing.
\<close>

definition written :: "world \<Rightarrow> nat \<Rightarrow> string \<Rightarrow> int \<Rightarrow> (string \<times> string) list" where
  "written w t path v = (if writable (w t) path then [(path, snprintf 32 (dec_int v))] else [])"

text \<open>
  One turn of the loop with the profile given: what \<open>main_iter\<close> does once the comparison
  with the threshold is made.
\<close>

definition turn_with :: "world \<Rightarrow> main_state \<Rightarrow> bool \<Rightarrow> main_state option" where
  "turn_with w st0 is_high_load =
     (let st = sample w st0;
          st' = st\<lparr>prev_idle := curr_idle st, prev_total := curr_total st\<rparr>
      in case apply_profile w is_high_load (io st') of
           None \<Rightarrow> None
         | Some s \<Rightarrow> Some (st'\<lparr>io := s\<rparr>))"

text \<open>
  Examples: counters given by their busy and idle parts; a table of ten frequencies; a
  world with that table for \<open>policy0\<close>; \<^verbatim>\<open>/proc/stat\<close> readable at one time only, with
  idle 50 of total 200; the line printed at the start.
\<close>

definition counters :: "nat \<Rightarrow> nat \<Rightarrow> cpu_fields" where
  "counters busy idle =
     \<lparr>f_user = of_nat busy, f_nice = 0, f_system = 0, f_idl = of_nat idle, f_iowait = 0,
      f_irq = 0, f_softirq = 0, f_steal = 0\<rparr>"

definition table10 :: string where
  "table10 = ''100 200 300 400 500 600 700 800 900 1000\<newline>''"

definition world_table10 :: "(nat \<Rightarrow> cpu_fields option) \<Rightarrow> world" where
  "world_table10 stat t =
     mk_fs (stat t)
       [(''/sys/devices/system/cpu/cpufreq/policy0/scaling_available_frequencies'', table10)]
       [''policy0'']"

definition stat_once :: "nat \<Rightarrow> nat \<Rightarrow> cpu_fields option" where
  "stat_once t0 t = (if t = t0 then Some (counters 150 50) else None)"

definition started :: "string list" where
  "started = [''Kanagawa Engine (Standard) Started.\<newline>'']"


section \<open>Lemmas\<close>

subsection \<open>The range of the numbers read\<close>

lemma int_of_long_range: "- (2 ^ 31) \<le> int_of_long v \<and> int_of_long v < 2 ^ 31"
proof -
  define l where "l = max (- (2 ^ 63)) (min (2 ^ 63 - 1) v)"
  have "0 \<le> (l + 2 ^ 31) mod 2 ^ 32" "(l + 2 ^ 31) mod 2 ^ 32 < 2 ^ 32" by simp_all
  then show ?thesis unfolding int_of_long_def Let_def l_def [symmetric] by simp
qed

lemma int_of_long_id: "- (2 ^ 31) \<le> v \<Longrightarrow> v < 2 ^ 31 \<Longrightarrow> int_of_long v = v"
  by (simp add: int_of_long_def Let_def min_def max_def)

lemma atoi_range: "- (2 ^ 31) \<le> atoi s \<and> atoi s < 2 ^ 31"
  using int_of_long_range by (auto simp: atoi_def parse_int_def split: option.splits)


subsection \<open>The parsing loop and the bubble sort\<close>

lemma parse_loop_acc:
  "length acc \<le> 100 \<Longrightarrow> parse_loop toks acc = acc @ map atoi (take (100 - length acc) toks)"
proof (induction toks arbitrary: acc)
  case Nil
  then show ?case by simp
next
  case (Cons tok rest)
  show ?case
  proof (cases "length acc < 100")
    case True
    then have "parse_loop (tok # rest) acc = parse_loop rest (acc @ [atoi tok])" by simp
    also have "\<dots> = (acc @ [atoi tok]) @ map atoi (take (100 - length (acc @ [atoi tok])) rest)"
      using True by (intro Cons.IH) simp
    also have "\<dots> = acc @ map atoi (take (100 - length acc) (tok # rest))"
      using True by (simp add: take_Cons' Suc_diff_Suc)
    finally show ?thesis .
  next
    case False
    with Cons.prems show ?thesis by simp
  qed
qed

lemma parse_loop_eq: "parse_loop toks [] = map atoi (take 100 toks)"
  using parse_loop_acc [of "[]" toks] by simp

lemma inner_loop_length: "length (inner_loop xs n i j) = length xs"
  by (induction xs n i j rule: inner_loop.induct) (subst inner_loop.simps, simp add: Let_def)

lemma inner_loop_mset: "n \<le> length xs \<Longrightarrow> mset (inner_loop xs n i j) = mset xs"
proof (induction xs n i j rule: inner_loop.induct)
  case (1 freqs cnt i j)
  show ?case
  proof (cases "j + i + 1 < cnt")
    case True
    then have j: "j < length freqs" "j + 1 < length freqs" using "1.prems" by auto
    let ?ys = "(if freqs ! j > freqs ! (j + 1)
              then (let temp = freqs ! j in (freqs[j := freqs ! (j + 1)])[j + 1 := temp])
              else freqs)"
    have m: "mset ?ys = mset freqs" using j by (simp add: Let_def mset_swap)
    have l: "length ?ys = length freqs" by (simp add: Let_def)
    have "mset (inner_loop ?ys cnt i (j + 1)) = mset ?ys"
      using True "1.prems" l by (intro "1.IH") auto
    then show ?thesis using True m by (subst inner_loop.simps) simp
  next
    case False
    then show ?thesis by (subst inner_loop.simps) simp
  qed
qed

lemma inner_loop_drop: "drop (n - i) (inner_loop xs n i j) = drop (n - i) xs"
proof (induction xs n i j rule: inner_loop.induct)
  case (1 freqs cnt i j)
  show ?case
  proof (cases "j + i + 1 < cnt")
    case True
    let ?ys = "(if freqs ! j > freqs ! (j + 1)
              then (let temp = freqs ! j in (freqs[j := freqs ! (j + 1)])[j + 1 := temp])
              else freqs)"
    have d: "drop (cnt - i) ?ys = drop (cnt - i) freqs" using True by (simp add: Let_def)
    have "drop (cnt - i) (inner_loop ?ys cnt i (j + 1)) = drop (cnt - i) ?ys"
      using True by (intro "1.IH") auto
    then show ?thesis using True d by (subst inner_loop.simps) simp
  next
    case False
    then show ?thesis by (subst inner_loop.simps) simp
  qed
qed

lemma inner_loop_max:
  "n \<le> length xs \<Longrightarrow> j + i + 1 \<le> n \<Longrightarrow> \<forall>k<j. xs ! k \<le> xs ! j \<Longrightarrow>
   \<forall>k \<le> n - i - 1. inner_loop xs n i j ! k \<le> inner_loop xs n i j ! (n - i - 1)"
proof (induction xs n i j rule: inner_loop.induct)
  case (1 freqs cnt i j)
  show ?case
  proof (cases "j + i + 1 < cnt")
    case True
    then have j: "j < length freqs" "j + 1 < length freqs" using "1.prems" by auto
    let ?ys = "(if freqs ! j > freqs ! (j + 1)
              then (let temp = freqs ! j in (freqs[j := freqs ! (j + 1)])[j + 1 := temp])
              else freqs)"
    have l: "length ?ys = length freqs" by (simp add: Let_def)
    have pre: "\<forall>k<j + 1. ?ys ! k \<le> ?ys ! (j + 1)"
    proof (intro allI impI)
      fix k assume "k < j + 1"
      then consider "k < j" | "k = j" by linarith
      then show "?ys ! k \<le> ?ys ! (j + 1)"
      proof cases
        case 1
        then have "freqs ! k \<le> freqs ! j" using "1.prems"(3) by simp
        then show ?thesis using 1 j by (auto simp: Let_def nth_list_update)
      next
        case 2
        then show ?thesis using j by (auto simp: Let_def nth_list_update)
      qed
    qed
    have "\<forall>k \<le> cnt - i - 1. inner_loop ?ys cnt i (j + 1) ! k \<le> inner_loop ?ys cnt i (j + 1) ! (cnt - i - 1)"
      using True "1.prems"(1) l pre by (intro "1.IH") auto
    then show ?thesis using True by (subst (1 2) inner_loop.simps) simp
  next
    case False
    then have "j = cnt - i - 1" using "1.prems"(2) by simp
    then show ?thesis using False "1.prems"(3)
      by (subst (1 2) inner_loop.simps) (auto simp: le_less)
  qed
qed

lemma inner_loop_take_set:
  assumes "n \<le> length xs"
  shows "set (take (n - i) (inner_loop xs n i j)) = set (take (n - i) xs)"
proof -
  let ?r = "inner_loop xs n i j"
  have "mset (take (n - i) ?r) + mset (drop (n - i) ?r) = mset (take (n - i) xs) + mset (drop (n - i) xs)"
    using inner_loop_mset [OF assms, of i j] by (simp flip: mset_append)
  then have "mset (take (n - i) ?r) = mset (take (n - i) xs)"
    by (simp add: inner_loop_drop)
  then show ?thesis by (rule mset_eq_setD)
qed

lemma inner_loop_bubbled:
  assumes n: "length xs = n" and i: "i + 1 < n" and b: "bubbled (n - i) xs"
  shows "bubbled (n - (i + 1)) (inner_loop xs n i 0)"
proof -
  let ?r = "inner_loop xs n i 0"
  let ?b = "n - i - 1"
  have len: "length ?r = n" using n by (simp add: inner_loop_length)
  have bi: "Suc ?b = n - i" "?b < n" using i by auto
  have mx: "\<forall>k \<le> ?b. ?r ! k \<le> ?r ! ?b"
    using n i by (intro inner_loop_max) auto
  have dr: "drop (n - i) ?r = drop (n - i) xs" by (rule inner_loop_drop)
  have tk: "set (take (n - i) ?r) = set (take (n - i) xs)"
    using n by (intro inner_loop_take_set) simp
  have split: "drop ?b ?r = ?r ! ?b # drop (n - i) ?r"
    using bi len by (metis Cons_nth_drop_Suc)
  have rb_in: "?r ! ?b \<in> set (take (n - i) ?r)"
    using bi len by (metis in_set_conv_nth length_take lessI min_less_iff_conj nth_take)
  have dom: "\<forall>x \<in> set (take (n - i) ?r). \<forall>y \<in> set (drop (n - i) ?r). x \<le> y"
    using b unfolding bubbled_def tk dr by blast
  have s1: "sorted (drop ?b ?r)"
    using b dom rb_in unfolding split bubbled_def dr by auto
  have s2: "\<forall>x \<in> set (take ?b ?r). \<forall>y \<in> set (drop ?b ?r). x \<le> y"
  proof (intro ballI)
    fix x y assume x: "x \<in> set (take ?b ?r)" and y: "y \<in> set (drop ?b ?r)"
    from x obtain k where k: "k < ?b" "x = ?r ! k"
      using len by (auto simp: in_set_conv_nth)
    then have xb: "x \<le> ?r ! ?b" using mx by simp
    have "x \<in> set (take (n - i) ?r)"
      using x bi by (metis set_take_subset_set_take le_SucI order_refl subsetD)
    then show "x \<le> y" using y xb dom unfolding split by auto
  qed
  have "n - (i + 1) = ?b" by simp
  then show ?thesis using s1 s2 unfolding bubbled_def by simp
qed

lemma outer_loop_length: "length (outer_loop xs n i) = length xs"
  by (induction xs n i rule: outer_loop.induct)
     (subst outer_loop.simps, simp add: inner_loop_length)

lemma outer_loop_mset: "n \<le> length xs \<Longrightarrow> mset (outer_loop xs n i) = mset xs"
  by (induction xs n i rule: outer_loop.induct)
     (subst outer_loop.simps, simp add: inner_loop_length inner_loop_mset)

lemma outer_loop_sorted:
  "length xs = n \<Longrightarrow> i < n \<Longrightarrow> bubbled (n - i) xs \<Longrightarrow> sorted (outer_loop xs n i)"
proof (induction xs n i rule: outer_loop.induct)
  case (1 freqs cnt i)
  show ?case
  proof (cases "i + 1 < cnt")
    case True
    have "sorted (outer_loop (inner_loop freqs cnt i 0) cnt (i + 1))"
      using True "1.prems" by (intro "1.IH" inner_loop_bubbled) (auto simp: inner_loop_length)
    then show ?thesis using True by (subst outer_loop.simps) simp
  next
    case False
    then have c: "cnt - i = 1" using "1.prems"(2) by simp
    have "sorted (take 1 freqs)" by (intro sorted01) simp
    then have "sorted (take 1 freqs @ drop 1 freqs)"
      using "1.prems"(3) unfolding c bubbled_def sorted_append by blast
    then have "sorted freqs" by simp
    then show ?thesis using False by (subst outer_loop.simps) simp
  qed
qed

lemma outer_loop_sort: "outer_loop xs (length xs) 0 = sort xs"
proof (cases "xs = []")
  case True
  then show ?thesis by (subst outer_loop.simps) simp
next
  case False
  have "sorted (outer_loop xs (length xs) 0)"
    using False by (intro outer_loop_sorted) (auto simp: bubbled_def)
  moreover have "mset (outer_loop xs (length xs) 0) = mset xs"
    by (simp add: outer_loop_mset)
  ultimately show ?thesis by (metis properties_for_sort)
qed

subsection \<open>Rounding\<close>

lemma round_even_of_int: "round_even (of_int z) = z"
  by (simp add: round_even_def)

lemma round_even_nonneg: "0 \<le> y \<Longrightarrow> 0 \<le> round_even y"
  by (auto simp: round_even_def Let_def)

lemma round_even_upper: "of_int (round_even y) \<le> y + 1 / 2"
proof -
  define n where "n = \<lfloor>y\<rfloor>"
  have n: "of_int n \<le> y" "y < of_int n + 1" unfolding n_def by linarith+
  consider "y - of_int n < 1 / 2" | "1 / 2 < y - of_int n" | "y - of_int n = 1 / 2"
    by linarith
  then show ?thesis
  proof cases
    case 1
    then have "round_even y = n" by (simp add: round_even_def Let_def n_def)
    then show ?thesis using n by simp
  next
    case 2
    then have "round_even y = n + 1" by (simp add: round_even_def Let_def n_def)
    then show ?thesis using 2 by simp
  next
    case 3
    then have "round_even y = n \<or> round_even y = n + 1"
      by (simp add: round_even_def Let_def n_def)
    then show ?thesis using 3 n by auto
  qed
qed

lemma ilog2_le:
  assumes "0 < x"
  shows "2 powi (ilog2 x) \<le> x"
proof (cases "1 \<le> x")
  case True
  then have f: "0 < \<lfloor>x\<rfloor>" by simp
  then have b1: "1 \<le> bitlen \<lfloor>x\<rfloor>" using bitlen_eq_zero_iff [of "\<lfloor>x\<rfloor>"] bitlen_nonneg [of "\<lfloor>x\<rfloor>"] by linarith
  have "(2::int) ^ nat (bitlen \<lfloor>x\<rfloor> - 1) \<le> \<lfloor>x\<rfloor>" using bitlen_bounds [OF f] by simp
  then have "(of_int ((2::int) ^ nat (bitlen \<lfloor>x\<rfloor> - 1)) :: rat) \<le> x"
    by (simp only: le_floor_iff)
  then have "(2::rat) ^ nat (bitlen \<lfloor>x\<rfloor> - 1) \<le> x"
    by simp
  then show ?thesis using True b1 by (simp add: ilog2_def power_int_nonneg_exp)
next
  case False
  define c where "c = \<lceil>1 / x\<rceil>"
  define L where "L = bitlen (c - 1)"
  have "1 < 1 / x" using assms False by simp
  then have c2: "2 \<le> c" unfolding c_def by linarith
  then have "c - 1 < 2 ^ nat L" unfolding L_def using bitlen_bounds [of "c - 1"] by simp
  then have "c \<le> 2 ^ nat L" by simp
  then have "(of_int c :: rat) \<le> 2 ^ nat L" by simp
  moreover have "1 / x \<le> of_int c" unfolding c_def by simp
  ultimately have "1 / x \<le> 2 ^ nat L" by (rule order_trans [rotated])
  then have "1 \<le> 2 ^ nat L * x" using assms by (simp add: field_simps)
  then have "1 / 2 ^ nat L \<le> x" by (simp add: field_simps)
  moreover have "0 \<le> L" unfolding L_def by (rule bitlen_nonneg)
  ultimately have "2 powi (- L) \<le> x"
    by (simp add: power_int_minus power_int_nonneg_exp field_simps)
  then show ?thesis using False by (simp add: ilog2_def c_def L_def)
qed

lemma ilog2_less:
  assumes "0 < x" and "x < 2 powi k"
  shows "ilog2 x < k"
proof (rule ccontr)
  assume "\<not> ilog2 x < k"
  then have "k \<le> ilog2 x" by simp
  then have "(2::rat) powi k \<le> 2 powi (ilog2 x)" by (intro power_int_increasing) auto
  with ilog2_le [OF assms(1)] assms(2) show False by linarith
qed

lemma fl_round_nonneg: "0 \<le> x \<Longrightarrow> 0 \<le> fl_round P qmin x"
  by (auto simp: fl_round_def Let_def round_even_nonneg intro!: mult_nonneg_nonneg)

lemma fl_round_exact:
  assumes m: "0 < m" "m < 2 ^ P" and e: "qmin \<le> e" and P: "0 < P"
  shows "fl_round P qmin (of_int m * 2 powi e) = of_int m * 2 powi e"
proof -
  let ?x = "of_int m * 2 powi e :: rat"
  have xpos: "0 < ?x" using m by (simp add: zero_less_power_int)
  have "(of_int m :: rat) < of_int (2 ^ P)" using m by (simp only: of_int_less_iff)
  then have "(of_int m :: rat) < 2 powi (int P)" by (simp add: power_int_nonneg_exp)
  then have "?x < 2 powi (int P) * 2 powi e"
    by (intro mult_strict_right_mono) (auto simp: zero_less_power_int)
  then have "?x < 2 powi (int P + e)" by (simp add: power_int_add)
  then have il: "ilog2 ?x < int P + e" using xpos by (intro ilog2_less)
  define q where "q = max (ilog2 \<bar>?x\<bar> - (int P - 1)) qmin"
  have qe: "q \<le> e" using il e xpos unfolding q_def by (simp add: abs_of_pos)
  have "?x / 2 powi q = of_int m * 2 powi (e - q)"
    by (simp add: power_int_diff)
  also have "\<dots> = of_int (m * 2 ^ nat (e - q))"
    using qe by (simp add: power_int_nonneg_exp)
  finally have z: "\<bar>?x\<bar> / 2 powi q = of_int (m * 2 ^ nat (e - q))"
    using xpos by (simp add: abs_of_pos)
  have r: "round_even (\<bar>?x\<bar> / 2 powi q) = m * 2 ^ nat (e - q)"
    unfolding z by (rule round_even_of_int)
  have xne: "?x \<noteq> 0" using xpos by (rule less_imp_neq [THEN not_sym])
  have "fl_round P qmin ?x = sgn ?x * of_int (round_even (\<bar>?x\<bar> / 2 powi q)) * 2 powi q"
    unfolding fl_round_def q_def Let_def using xne by (simp only: if_False)
  also have "\<dots> = of_int (m * 2 ^ nat (e - q)) * 2 powi q"
    unfolding r using xpos by (simp only: sgn_pos mult_1)
  also have "\<dots> = of_int m * (2 powi (e - q) * 2 powi q)"
    using qe by (simp add: power_int_nonneg_exp)
  also have "\<dots> = ?x" by (simp flip: power_int_add)
  finally show ?thesis .
qed

lemma fl_round_upper:
  assumes x: "0 \<le> x" "x < 2 powi (int P - 1)" and q: "qmin \<le> 0"
  shows "fl_round P qmin x \<le> x + 1 / 2"
proof (cases "x = 0")
  case True
  then show ?thesis by (simp add: fl_round_def)
next
  case False
  then have xpos: "0 < x" using x by simp
  define q where "q = max (ilog2 \<bar>x\<bar> - (int P - 1)) qmin"
  have "ilog2 x < int P - 1" using xpos x(2) by (intro ilog2_less)
  then have q0: "q \<le> 0" using q xpos unfolding q_def by (simp add: abs_of_pos)
  have p1: "(2::rat) powi q \<le> 1" using q0 power_int_increasing [of q 0 "2::rat"] by simp
  have p0: "0 < (2::rat) powi q" by (simp add: zero_less_power_int)
  have "fl_round P qmin x = of_int (round_even (x / 2 powi q)) * 2 powi q"
    using xpos unfolding fl_round_def q_def Let_def by (simp add: abs_of_pos sgn_pos)
  also have "\<dots> \<le> (x / 2 powi q + 1 / 2) * 2 powi q"
    using p0 round_even_upper by (intro mult_right_mono) auto
  also have "\<dots> = x + 2 powi q / 2" using p0 by (simp add: field_simps)
  also have "\<dots> \<le> x + 1 / 2" using p1 by simp
  finally show ?thesis .
qed

subsection \<open>The percentile index and the resolver\<close>

lemma f32_of_nat: "n < 2 ^ 24 \<Longrightarrow> f32 (of_nat n) = of_nat n"
proof (cases "n = 0")
  case True
  then show ?thesis by (simp add: f32_def fl_round_def)
next
  case False
  assume "n < 2 ^ 24"
  then have "int n < 2 ^ 24" by (metis of_nat_less_iff of_nat_numeral of_nat_power)
  then have "fl_round 24 (- 149) (of_int (int n) * 2 powi 0) = of_int (int n) * 2 powi 0"
    using False by (intro fl_round_exact) auto
  then show ?thesis by (simp add: f32_def)
qed

lemma f32_quarters: "n < 2 ^ 24 \<Longrightarrow> f32 (of_nat n / 4) = of_nat n / 4"
proof (cases "n = 0")
  case True
  then show ?thesis by (simp add: f32_def fl_round_def)
next
  case False
  assume "n < 2 ^ 24"
  then have "int n < 2 ^ 24" by (metis of_nat_less_iff of_nat_numeral of_nat_power)
  then have "fl_round 24 (- 149) (of_int (int n) * 2 powi (- 2)) = of_int (int n) * 2 powi (- 2)"
    using False by (intro fl_round_exact) auto
  then show ?thesis by (simp add: f32_def power_int_minus field_simps)
qed

lemma f32_nonneg: "0 \<le> x \<Longrightarrow> 0 \<le> f32 x"
  by (simp add: f32_def fl_round_nonneg)

lemma f32_upper: "0 \<le> x \<Longrightarrow> x < 2 ^ 23 \<Longrightarrow> f32 x \<le> x + 1 / 2"
  unfolding f32_def by (rule fl_round_upper) (auto simp: power_int_nonneg_exp)

lemma f32_dyadic: "n < 2 ^ 24 \<Longrightarrow> k \<le> 149 \<Longrightarrow> f32 (of_nat n / 2 ^ k) = of_nat n / 2 ^ k"
proof (cases "n = 0")
  case True
  then show ?thesis by (simp add: f32_def fl_round_def)
next
  case False
  assume "n < 2 ^ 24" and k: "k \<le> 149"
  then have "int n < 2 ^ 24" by (metis of_nat_less_iff of_nat_numeral of_nat_power)
  then have "fl_round 24 (- 149) (of_int (int n) * 2 powi (- int k)) = of_int (int n) * 2 powi (- int k)"
    using False k by (intro fl_round_exact) auto
  then show ?thesis by (simp add: f32_def power_int_minus field_simps)
qed

lemma percent_index_unit:
  assumes n: "0 < n" "n \<le> 100" and p: "0 \<le> p" "p \<le> 1"
  shows "percent_index n p = Some (min \<lfloor>f32 (of_nat n * p)\<rfloor> (int n - 1))"
    and "0 \<le> \<lfloor>f32 (of_nat n * p)\<rfloor>"
proof -
  let ?x = "of_nat n * p :: rat"
  have fn: "f32 (of_nat n) = of_nat n" using n by (intro f32_of_nat) simp
  have x0: "0 \<le> ?x" using p by simp
  have "?x \<le> of_nat n" using p by (intro mult_left_le) auto
  moreover have "(of_nat n :: rat) \<le> 100" using n by simp
  ultimately have x100: "?x \<le> 100" by linarith
  have y0: "0 \<le> f32 ?x" using x0 by (rule f32_nonneg)
  have "f32 ?x \<le> ?x + 1 / 2" using x0 x100 by (intro f32_upper) auto
  then have y101: "f32 ?x < 101" using x100 by simp
  then have fl: "\<lfloor>f32 ?x\<rfloor> < 101" by (simp add: floor_less_iff)
  show f0: "0 \<le> \<lfloor>f32 ?x\<rfloor>" using y0 by simp
  have "int_of_float (f32 ?x) = Some \<lfloor>f32 ?x\<rfloor>"
    using y0 f0 fl by (simp add: int_of_float_def Let_def)
  then show "percent_index n p = Some (min \<lfloor>f32 (of_nat n * p)\<rfloor> (int n - 1))"
    by (auto simp: percent_index_def fn min_def)
qed

lemma percent_index_75:
  assumes "0 < n" "n \<le> 100"
  shows "percent_index n (3 / 4) = Some (int (3 * n div 4))"
proof -
  have "f32 (of_nat (3 * n) / 4) = of_nat (3 * n) / 4"
    using assms by (intro f32_quarters) simp
  then have e: "f32 (of_nat n * (3 / 4)) = of_nat (3 * n) / 4" by (simp add: field_simps)
  have "\<lfloor>(of_nat (3 * n) / 4 :: rat)\<rfloor> = int (3 * n div 4)"
    by (metis floor_divide_of_nat_eq of_nat_numeral)
  moreover have "3 * n div 4 < n" using assms by simp
  ultimately show ?thesis
    using percent_index_unit(1) [OF assms, of "3 / 4"] unfolding e by simp
qed

lemma percent_index_50:
  assumes "0 < n" "n \<le> 100"
  shows "percent_index n (1 / 2) = Some (int (n div 2))"
proof -
  have "f32 (of_nat (2 * n) / 4) = of_nat (2 * n) / 4"
    using assms by (intro f32_quarters) simp
  then have e: "f32 (of_nat n * (1 / 2)) = of_nat n / 2" by (simp add: field_simps)
  have "\<lfloor>(of_nat n / 2 :: rat)\<rfloor> = int (n div 2)"
    by (metis floor_divide_of_nat_eq of_nat_numeral)
  moreover have "n div 2 < n" using assms by simp
  ultimately show ?thesis
    using percent_index_unit(1) [OF assms, of "1 / 2"] unfolding e by simp
qed

text \<open>
  The product is rounded to single precision before it is truncated. For ten entries and
  the \<^verbatim>\<open>float\<close> nearest to 0.7, the exact product is just below 7 and the rounded one is 7.
\<close>

lemma percent_index_rounds_product:
  "percent_index 10 (11744051 / 16777216) = Some 7
   \<and> \<lfloor>(10 * (11744051 / 16777216) :: rat)\<rfloor> = 6"
  by code_simp

lemma get_target_freq_tokens_sort:
  assumes "freqs = map atoi (take 100 tokens)"
  shows "get_target_freq_tokens tokens percent return_abs_max return_abs_min =
     (if freqs = [] then Some 0
      else if return_abs_max then Some (sort freqs ! (length freqs - 1))
      else if return_abs_min then Some (sort freqs ! 0)
      else (case percent_index (length freqs) percent of
              None \<Rightarrow> None
            | Some index \<Rightarrow> if 0 \<le> index then Some (sort freqs ! nat index) else None))"
  unfolding get_target_freq_tokens_def parse_loop_eq assms [symmetric] Let_def outer_loop_sort
  by simp

lemma sort_nth_mem: "i < length xs \<Longrightarrow> sort xs ! i \<in> set xs"
  by (metis length_sort nth_mem set_sort)

lemma get_target_freq_readable:
  assumes "files (w t) (avail_path_of policy_path) = Some content"
    and "fgets MAX_FREQ_BUF content = Some buf"
  shows "get_target_freq w t policy_path p a b =
           (get_target_freq_tokens (strtok_all buf) p a b, t + 1)"
  using assms by (simp add: get_target_freq_def)


lemma get_target_freq_tokens_perm:
  assumes "mset tokens' = mset tokens" and "length tokens \<le> 100"
  shows "get_target_freq_tokens tokens' p a b = get_target_freq_tokens tokens p a b"
proof -
  have l: "length tokens' = length tokens" using assms(1) by (rule mset_eq_length)
  have "mset (map atoi tokens') = mset (map atoi tokens)" using assms(1) by (metis mset_map)
  then have srt: "sort (map atoi tokens') = sort (map atoi tokens)"
    by (metis properties_for_sort sorted_sort mset_sort)
  have t: "take 100 tokens' = tokens'" "take 100 tokens = tokens"
    using assms(2) l by simp_all
  have e: "(tokens' = []) = (tokens = [])" using l by (metis length_0_conv)
  show ?thesis
    unfolding get_target_freq_tokens_sort [OF refl] t srt by (simp add: l e)
qed

subsection \<open>The profile applier\<close>

lemma write_int_to_file_eq:
  "write_int_to_file w path v s =
     s\<lparr>clock := clock s + 1, trace := trace s @ written w (clock s) path v\<rparr>"
  by (simp add: write_int_to_file_def write_to_file_def written_def)

lemma get_target_freq_clock:
  "snd (get_target_freq w t pp p False b) = t + 1"
  by (simp add: get_target_freq_def split: option.splits)



lemma apply_bounds_high:
  assumes "get_target_freq w (clock s) pp (3 / 4) False False = (Some target, t3)"
  shows "apply_bounds w True pp amax amin s =
     Some (s\<lparr>clock := t3 + 2,
              trace := trace s @ written w t3 (max_node_of pp) amax
                               @ written w (t3 + 1) (min_node_of pp) target\<rparr>)"
  using assms by (simp add: apply_bounds_def write_int_to_file_eq)

lemma apply_bounds_low:
  assumes "get_target_freq w (clock s) pp (1 / 2) False False = (Some target, t3)"
  shows "apply_bounds w False pp amax amin s =
     Some (s\<lparr>clock := t3 + 2,
              trace := trace s @ written w t3 (min_node_of pp) amin
                               @ written w (t3 + 1) (max_node_of pp) target\<rparr>)"
  using assms by (simp add: apply_bounds_def write_int_to_file_eq)

lemma apply_entry_bounds:
  assumes "take 6 d_name = ''policy''"
    and "get_target_freq w (clock s) (policy_path_of d_name) 1 True False = (Some amax, t1)"
    and "get_target_freq w t1 (policy_path_of d_name) 0 False True = (Some amin, t2)"
  shows "apply_entry w hl d_name s =
     (if amax = 0 \<or> amin = 0 then Some (s\<lparr>clock := t2\<rparr>)
      else apply_bounds w hl (policy_path_of d_name) amax amin (s\<lparr>clock := t2\<rparr>))"
  using assms by (simp add: apply_entry_def Let_def)







subsection \<open>The utilisation\<close>

lemma f64_of_nat: "n < 2 ^ 53 \<Longrightarrow> f64 (of_nat n) = of_nat n"
proof (cases "n = 0")
  case True
  then show ?thesis by (simp add: f64_def fl_round_def)
next
  case False
  assume "n < 2 ^ 53"
  then have "int n < 2 ^ 53" by (metis of_nat_less_iff of_nat_numeral of_nat_power)
  then have "fl_round 53 (- 1074) (of_int (int n) * 2 powi 0) = of_int (int n) * 2 powi 0"
    using False by (intro fl_round_exact) auto
  then show ?thesis by (simp add: f64_def)
qed

lemma usage_of_exact:
  assumes "di \<le> dt" and "unat dt < 2 ^ 46" and "dt \<noteq> 0"
  shows "usage_of dt di = f64 (100 * (of_nat (unat dt) - of_nat (unat di)) / of_nat (unat dt))"
proof -
  define a where "a = unat dt - unat di"
  have le: "unat di \<le> unat dt" using assms(1) by (simp add: word_le_nat_alt)
  have u: "unat (dt - di) = a" unfolding a_def using assms(1) by (rule unat_sub)
  have a46: "a < 2 ^ 46" unfolding a_def using assms(2) by simp
  have "100 * a < 100 * 2 ^ 46" using a46 by simp
  also have "\<dots> < (2::nat) ^ 53" by simp
  finally have a53: "100 * a < 2 ^ 53" .
  have "a < 2 ^ 53" using a53 by simp
  then have f1: "f64 (of_nat a) = of_nat a" by (rule f64_of_nat)
  have f2: "f64 (of_nat (100 * a)) = of_nat (100 * a)" using a53 by (rule f64_of_nat)
  have "unat dt < 2 ^ 53"
    using assms(2) by (rule less_trans) simp
  then have f3: "f64 (of_nat (unat dt)) = of_nat (unat dt)" by (rule f64_of_nat)
  have m: "(100 * of_nat a :: rat) = of_nat (100 * a)" by simp
  have pos: "0 < dt" using assms(3) by (simp add: word_greater_zero_iff)
  have "usage_of dt di = f64 (of_nat (100 * a) / of_nat (unat dt))"
    using pos unfolding usage_of_def u f1 m f2 f3 by simp
  also have "(of_nat (100 * a) :: rat) = 100 * (of_nat (unat dt) - of_nat (unat di))"
    unfolding a_def using le by (simp add: of_nat_diff)
  finally show ?thesis .
qed

subsection \<open>Facts for the examples\<close>

lemma apply_entries_single: "apply_entries w h [d] s = apply_entry w h d s"
  by (simp split: option.splits)


lemma policy_path_of_policy0: "policy_path_of ''policy0'' = policy0"
  by (simp add: policy_path_of_def snprintf_def MAX_PATH_def SYS_CPU_BASE_def policy0_def)

lemma avail_path_of_policy0:
  "avail_path_of policy0 = ''/sys/devices/system/cpu/cpufreq/policy0/scaling_available_frequencies''"
  by (simp add: avail_path_of_def snprintf_def MAX_PATH_def policy0_def)

lemma min_node_of_policy0:
  "min_node_of policy0 = ''/sys/devices/system/cpu/cpufreq/policy0/scaling_min_freq''"
  by (simp add: min_node_of_def snprintf_def MAX_PATH_def policy0_def)

lemma max_node_of_policy0:
  "max_node_of policy0 = ''/sys/devices/system/cpu/cpufreq/policy0/scaling_max_freq''"
  by (simp add: max_node_of_def snprintf_def MAX_PATH_def policy0_def)

lemma fgets_table10:
  "fgets MAX_FREQ_BUF ''100 200 300 400 500 600 700 800 900 1000\<newline>'' =
     Some ''100 200 300 400 500 600 700 800 900 1000\<newline>''"
  by (simp add: fgets_def MAX_FREQ_BUF_def)

lemma tokens_table10:
  "get_target_freq_tokens (strtok_all ''100 200 300 400 500 600 700 800 900 1000\<newline>'') 1 True False = Some 1000"
  "get_target_freq_tokens (strtok_all ''100 200 300 400 500 600 700 800 900 1000\<newline>'') 0 False True = Some 100"
  "get_target_freq_tokens (strtok_all ''100 200 300 400 500 600 700 800 900 1000\<newline>'') (3 / 4) False False = Some 800"
  "get_target_freq_tokens (strtok_all ''100 200 300 400 500 600 700 800 900 1000\<newline>'') (1 / 2) False False = Some 600"
  unfolding get_target_freq_tokens_sort [OF refl] by code_simp+

lemma dec_int_examples:
  "snprintf 32 (dec_int 1000) = ''1000''" "snprintf 32 (dec_int 800) = ''800''"
  "snprintf 32 (dec_int 100) = ''100''" "snprintf 32 (dec_int 600) = ''600''"
  by (simp_all add: snprintf_def dec_int_def dec_nat.simps digit_char_def)

lemma policy_path_of_policy1: "policy_path_of ''policy1'' = policy1"
  by (simp add: policy_path_of_def snprintf_def MAX_PATH_def SYS_CPU_BASE_def policy1_def)

lemma avail_path_of_policy1:
  "avail_path_of policy1 = ''/sys/devices/system/cpu/cpufreq/policy1/scaling_available_frequencies''"
  by (simp add: avail_path_of_def snprintf_def MAX_PATH_def policy1_def)

lemma cpuinfo_path_of_policy0:
  "cpuinfo_path_of policy0 = ''/sys/devices/system/cpu/cpufreq/policy0/cpuinfo_max_freq''"
  by (simp add: cpuinfo_path_of_def snprintf_def MAX_PATH_def policy0_def)

lemma min_node_of_policy1:
  "min_node_of policy1 = ''/sys/devices/system/cpu/cpufreq/policy1/scaling_min_freq''"
  by (simp add: min_node_of_def snprintf_def MAX_PATH_def policy1_def)

lemma max_node_of_policy1:
  "max_node_of policy1 = ''/sys/devices/system/cpu/cpufreq/policy1/scaling_max_freq''"
  by (simp add: max_node_of_def snprintf_def MAX_PATH_def policy1_def)

lemma fgets_table4:
  "fgets MAX_FREQ_BUF ''100 200 300 400\<newline>'' = Some ''100 200 300 400\<newline>''"
  by (simp add: fgets_def MAX_FREQ_BUF_def)

lemma tokens_table4:
  "get_target_freq_tokens (strtok_all ''100 200 300 400\<newline>'') 1 True False = Some 400"
  "get_target_freq_tokens (strtok_all ''100 200 300 400\<newline>'') 0 False True = Some 100"
  "get_target_freq_tokens (strtok_all ''100 200 300 400\<newline>'') (3 / 4) False False = Some 400"
  "get_target_freq_tokens (strtok_all ''100 200 300 400\<newline>'') (1 / 2) False False = Some 300"
  unfolding get_target_freq_tokens_sort [OF refl] by code_simp+

lemma dec_int_examples4:
  "snprintf 32 (dec_int 400) = ''400''" "snprintf 32 (dec_int 300) = ''300''"
  "snprintf 32 (dec_int 0) = ''0''"
  by (simp_all add: snprintf_def dec_int_def dec_nat.simps digit_char_def)

subsection \<open>The control loop\<close>

lemma threshold_double: "f64 (of_int CPU_USAGE_THRESHOLD) = 40"
  unfolding CPU_USAGE_THRESHOLD_def by code_simp

lemma main_iter_turn_with: "main_iter w st = turn_with w st (40 < usage (sample w st))"
  by (simp add: main_iter_def turn_with_def threshold_double Let_def)

lemma tokens_table10': 
  "get_target_freq_tokens (strtok_all table10) 1 True False = Some 1000"
  "get_target_freq_tokens (strtok_all table10) 0 False True = Some 100"
  "get_target_freq_tokens (strtok_all table10) (3 / 4) False False = Some 800"
  "get_target_freq_tokens (strtok_all table10) (1 / 2) False False = Some 600"
  unfolding table10_def by (rule tokens_table10)+

lemma apply_profile_table10:
  "apply_profile (world_table10 stat) is_high_load s =
     Some (s\<lparr>clock := clock s + 6,
              trace := trace s @
                (if is_high_load
                 then [(''/sys/devices/system/cpu/cpufreq/policy0/scaling_max_freq'', ''1000''),
                       (''/sys/devices/system/cpu/cpufreq/policy0/scaling_min_freq'', ''800'')]
                 else [(''/sys/devices/system/cpu/cpufreq/policy0/scaling_min_freq'', ''100''),
                       (''/sys/devices/system/cpu/cpufreq/policy0/scaling_max_freq'', ''600'')])\<rparr>)"
proof -
  let ?w = "world_table10 stat"
  let ?s = "s\<lparr>clock := clock s + 1\<rparr>"
  have f: "files (?w t) (avail_path_of policy0) = Some table10" for t
    by (simp add: world_table10_def mk_fs_def avail_path_of_policy0)
  have fg: "fgets MAX_FREQ_BUF table10 = Some table10"
    unfolding table10_def by (rule fgets_table10)
  note g = get_target_freq_readable [where w = ?w, OF f fg]
  have wr: "writable (?w t) path" for t path by (simp add: world_table10_def mk_fs_def)
  have d: "dirs (?w t) SYS_CPU_BASE = Some [''policy0'']" for t
    by (simp add: world_table10_def mk_fs_def)
  have pol: "take 6 ''policy0'' = ''policy''" by simp
  have mx: "get_target_freq ?w (clock ?s) (policy_path_of ''policy0'') 1 True False
              = (Some 1000, clock s + 2)"
    by (simp add: policy_path_of_policy0 g tokens_table10')
  have mn: "get_target_freq ?w (clock s + 2) (policy_path_of ''policy0'') 0 False True
              = (Some 100, clock s + 3)"
    by (simp add: policy_path_of_policy0 g tokens_table10')
  have th: "get_target_freq ?w (clock (s\<lparr>clock := clock s + 3\<rparr>)) policy0 (3 / 4) False False
              = (Some 800, clock s + 4)"
    by (simp add: g tokens_table10')
  have tl: "get_target_freq ?w (clock (s\<lparr>clock := clock s + 3\<rparr>)) policy0 (1 / 2) False False
              = (Some 600, clock s + 4)"
    by (simp add: g tokens_table10')
  have e: "apply_entry ?w h ''policy0'' ?s =
             apply_bounds ?w h policy0 1000 100 (s\<lparr>clock := clock s + 3\<rparr>)" for h
    unfolding apply_entry_bounds [OF pol mx mn] policy_path_of_policy0 by simp
  have p: "apply_profile ?w h s = apply_entry ?w h ''policy0'' ?s" for h
    unfolding apply_profile_def d by (simp add: apply_entries_single del: apply_entries.simps(2))
  have r: "apply_profile ?w h s =
             apply_bounds ?w h policy0 1000 100 (s\<lparr>clock := clock s + 3\<rparr>)" for h
    by (simp only: p e)
  show ?thesis
    unfolding r
    using apply_bounds_high [OF th, of 1000 100] apply_bounds_low [OF tl, of 1000 100]
    by (cases is_high_load)
       (simp_all add: written_def wr min_node_of_policy0 max_node_of_policy0
          dec_int_examples)
qed

lemma sample_readable:
  "proc_stat (w (clock (io st))) = Some (counters busy idle) \<Longrightarrow>
   sample w st = st\<lparr>curr_idle := of_nat idle, curr_total := of_nat busy + of_nat idle,
                    io := (io st)\<lparr>clock := clock (io st) + 1\<rparr>\<rparr>"
  by (simp add: sample_def get_cpu_times_def counters_def)

lemma sample_unreadable:
  "proc_stat (w (clock (io st))) = None \<Longrightarrow>
   sample w st = st\<lparr>io := (io st)\<lparr>clock := clock (io st) + 1\<rparr>\<rparr>"
  by (simp add: sample_def get_cpu_times_def)


lemma f64_examples: "f64 40 = 40" "f64 55 = 55" "f64 75 = 75" "f64 100 = 100"
  by code_simp+

lemma usage_after_sample:
  "usage (st\<lparr>curr_idle := ci, curr_total := ct, io := s\<rparr>) =
     usage_of (ct - prev_total st) (ci - prev_idle st)"
  by (simp add: usage_def)


lemma apply_bounds_stdout:
  "apply_bounds w h pp amax amin s = Some s' \<Longrightarrow> stdout s' = stdout s"
  by (auto simp: apply_bounds_def write_int_to_file_eq Let_def split: if_splits prod.splits option.splits)

lemma apply_entry_stdout: "apply_entry w h d s = Some s' \<Longrightarrow> stdout s' = stdout s"
  by (auto simp: apply_entry_def Let_def split: if_splits option.splits dest: apply_bounds_stdout)

lemma apply_entries_stdout: "apply_entries w h ds s = Some s' \<Longrightarrow> stdout s' = stdout s"
proof (induction ds arbitrary: s)
  case Nil
  then show ?case by simp
next
  case (Cons d ds)
  then obtain s1 where 1: "apply_entry w h d s = Some s1" and 2: "apply_entries w h ds s1 = Some s'"
    by (auto split: option.splits)
  from Cons.IH [OF 2] apply_entry_stdout [OF 1] show ?case by simp
qed

lemma apply_profile_stdout: "apply_profile w h s = Some s' \<Longrightarrow> stdout s' = stdout s"
  by (auto simp: apply_profile_def split: option.splits dest: apply_entries_stdout)

lemma main_iter_result:
  assumes "main_iter w st = Some st'"
  shows "stdout (io st') = stdout (io st)"
    and "curr_total st' = prev_total st'" and "curr_idle st' = prev_idle st'"
proof -
  let ?s1 = "sample w st"
  let ?s2 = "?s1\<lparr>prev_idle := curr_idle ?s1, prev_total := curr_total ?s1\<rparr>"
  from assms obtain s where a: "apply_profile w (40 < usage ?s1) (io ?s2) = Some s"
    and r: "st' = ?s2\<lparr>io := s\<rparr>"
    by (auto simp: main_iter_turn_with turn_with_def Let_def split: option.splits)
  have "stdout (io ?s1) = stdout (io st)"
    by (simp add: sample_def get_cpu_times_def split: option.splits prod.splits)
  then show "stdout (io st') = stdout (io st)"
    using apply_profile_stdout [OF a] r by simp
  show "curr_total st' = prev_total st'" "curr_idle st' = prev_idle st'"
    using r by simp_all
qed

lemma main_one: "main w 1 = main_iter w (main_init w)"
  by (simp add: main_def split: option.splits)

section \<open>The claims\<close>

text \<open>
  C3, as stated, fails for the percentiles whose product with the count is not a
  \<^verbatim>\<open>float\<close>: the code rounds the product to single precision before it truncates. For
  the \<^verbatim>\<open>float\<close> nearest to 0.7 and ten entries, the exact product is just below 7, its floor
  is 6 and the entry there is 700; the rounded product is 7 and the code returns 800.
\<close>

theorem C3_counterexample:
  "0 < (11744051 / 16777216 :: rat) \<and> (11744051 / 16777216 :: rat) \<le> 1
   \<and> get_target_freq (world_table10 (stat_once 0)) 0 policy0 (11744051 / 16777216) False False
       = (Some 800, 1)
   \<and> sort (map atoi (take 100 (strtok_all table10)))
       = [100, 200, 300, 400, 500, 600, 700, 800, 900, 1000]
   \<and> [100, 200, 300, 400, 500, 600, 700, 800, 900, 1000 :: int]
        ! nat (min \<lfloor>(10 * (11744051 / 16777216) :: rat)\<rfloor> (10 - 1)) = 700"
proof -
  let ?w = "world_table10 (stat_once 0)"
  have f: "files (?w 0) (avail_path_of policy0) = Some table10"
    by (simp add: world_table10_def mk_fs_def avail_path_of_policy0)
  have fg: "fgets MAX_FREQ_BUF table10 = Some table10"
    unfolding table10_def by (rule fgets_table10)
  have v: "get_target_freq_tokens (strtok_all table10) (11744051 / 16777216) False False = Some 800"
    unfolding get_target_freq_tokens_sort [OF refl] table10_def by code_simp
  have g: "get_target_freq ?w 0 policy0 (11744051 / 16777216) False False = (Some 800, 1)"
    using get_target_freq_readable [where w = ?w and t = 0, OF f fg] by (simp add: v)
  have s: "sort (map atoi (take 100 (strtok_all table10)))
       = [100, 200, 300, 400, 500, 600, 700, 800, 900, 1000]"
    unfolding table10_def by code_simp
  have i: "[100, 200, 300, 400, 500, 600, 700, 800, 900, 1000 :: int]
        ! nat (min \<lfloor>(10 * (11744051 / 16777216) :: rat)\<rfloor> (10 - 1)) = 700"
    by code_simp
  have r: "0 < (11744051 / 16777216 :: rat) \<and> (11744051 / 16777216 :: rat) \<le> 1" by simp
  from r g s i show ?thesis by blast
qed

text \<open>
  C3, amended. On a readable table whose parsed entries \<open>freqs\<close> are not empty, the
  resolver returns the last entry of the ascending table for AbsoluteMax, the first for
  AbsoluteMin, and for a percentile \<open>p\<close> in \<open>(0, 1]\<close> the entry at the index
  \<open>floor (fl (count * p))\<close> clamped to \<open>count - 1\<close>, where \<open>fl\<close> rounds the product to single
  precision. The index is \<open>floor (count * p)\<close> itself whenever \<open>p\<close> is \<open>m / 2 ^ k\<close> with
  \<open>m * count\<close> below \<open>2 ^ 24\<close>, in particular for the two percentiles the program uses,
  0.75 and 0.50. On the table 100 200 300 400 this gives 400, 100, 400 for 0.75 and 300
  for 0.50.
\<close>

theorem C3_resolve_sorted_table:
  assumes "files (w t) (avail_path_of policy_path) = Some content"
    and "fgets MAX_FREQ_BUF content = Some buf"
    and "freqs = map atoi (take 100 (strtok_all buf))"
    and "freqs \<noteq> []"
  shows "get_target_freq w t policy_path p True False = (Some (last (sort freqs)), t + 1)
       \<and> get_target_freq w t policy_path p False True = (Some (hd (sort freqs)), t + 1)
       \<and> (0 < p \<and> p \<le> 1 \<longrightarrow>
            get_target_freq w t policy_path p False False =
              (Some (sort freqs !
                 nat (min \<lfloor>f32 (of_nat (length freqs) * p)\<rfloor> (int (length freqs) - 1))), t + 1))
       \<and> (p = 3 / 4 \<or> p = 1 / 2
            \<or> (\<exists>m k. p = of_nat m / 2 ^ k \<and> 0 < p \<and> p \<le> 1
                       \<and> m * length freqs < 2 ^ 24 \<and> k \<le> 149) \<longrightarrow>
            get_target_freq w t policy_path p False False =
              (Some (sort freqs !
                 nat (min \<lfloor>of_nat (length freqs) * p\<rfloor> (int (length freqs) - 1))), t + 1))"
proof -
  note r = get_target_freq_readable [where w = w and t = t, OF assms(1,2)]
  note s = get_target_freq_tokens_sort [OF assms(3)]
  have n: "0 < length freqs" "length freqs \<le> 100" using assms(3,4) by auto
  have srt: "sort freqs \<noteq> []" using assms(4) by (metis length_0_conv length_sort)
  have 1: "get_target_freq w t policy_path p True False = (Some (last (sort freqs)), t + 1)"
    using assms(4) srt by (simp add: r s last_conv_nth)
  have 2: "get_target_freq w t policy_path p False True = (Some (hd (sort freqs)), t + 1)"
    using assms(4) srt by (simp add: r s hd_conv_nth)
  have 3: "get_target_freq w t policy_path p False False =
              (Some (sort freqs !
                 nat (min \<lfloor>f32 (of_nat (length freqs) * p)\<rfloor> (int (length freqs) - 1))), t + 1)"
    if "0 < p \<and> p \<le> 1"
    using assms(4) that percent_index_unit [OF n, of p] by (simp add: r s)
  have 4: "get_target_freq w t policy_path p False False =
              (Some (sort freqs !
                 nat (min \<lfloor>of_nat (length freqs) * p\<rfloor> (int (length freqs) - 1))), t + 1)"
    if "p = 3 / 4 \<or> p = 1 / 2
            \<or> (\<exists>m k. p = of_nat m / 2 ^ k \<and> 0 < p \<and> p \<le> 1
                       \<and> m * length freqs < 2 ^ 24 \<and> k \<le> 149)"
  proof -
    have a: "\<lfloor>(of_nat (length freqs) * (3 / 4) :: rat)\<rfloor> = int (3 * length freqs div 4)"
      using floor_divide_of_nat_eq [of "3 * length freqs" 4, where ?'a = rat]
      by (simp add: mult.commute)
    have b: "\<lfloor>(of_nat (length freqs) * (1 / 2) :: rat)\<rfloor> = int (length freqs div 2)"
      using floor_divide_of_nat_eq [of "length freqs" 2, where ?'a = rat] by simp
    have c: "3 * length freqs div 4 < length freqs" "length freqs div 2 < length freqs"
      using n(1) by arith+
    have q75: "get_target_freq w t policy_path (3 / 4) False False =
              (Some (sort freqs !
                 nat (min \<lfloor>(of_nat (length freqs) * (3 / 4) :: rat)\<rfloor> (int (length freqs) - 1))), t + 1)"
      using assms(4) percent_index_75 [OF n] c a unfolding r s by simp
    have q50: "get_target_freq w t policy_path (1 / 2) False False =
              (Some (sort freqs !
                 nat (min \<lfloor>(of_nat (length freqs) * (1 / 2) :: rat)\<rfloor> (int (length freqs) - 1))), t + 1)"
      using assms(4) percent_index_50 [OF n] c b unfolding r s by simp
    have dy: ?thesis
      if "\<exists>m k. p = of_nat m / 2 ^ k \<and> 0 < p \<and> p \<le> 1
                       \<and> m * length freqs < 2 ^ 24 \<and> k \<le> 149"
    proof -
      from that obtain m k where p: "p = of_nat m / 2 ^ k" and u: "0 < p \<and> p \<le> 1"
        and m: "m * length freqs < 2 ^ 24" and k: "k \<le> 149"
        by blast
      have "of_nat (length freqs) * p = (of_nat (m * length freqs) / 2 ^ k :: rat)"
        unfolding p by simp
      moreover have "f32 (of_nat (m * length freqs) / 2 ^ k) = of_nat (m * length freqs) / 2 ^ k"
        using m k by (rule f32_dyadic)
      ultimately have "f32 (of_nat (length freqs) * p) = of_nat (length freqs) * p" by simp
      with 3 [OF u] show ?thesis by simp
    qed
    from that q75 q50 dy show ?thesis by blast
  qed
  from 1 2 3 4 show ?thesis by blast
qed


theorem C3_witness:
  "get_target_freq
     (\<lambda>t. mk_fs None
        [(''/sys/devices/system/cpu/cpufreq/policy0/scaling_available_frequencies'',
          ''100 200 300 400\<newline>'')] [''policy0''])
     0 policy0 1 True False = (Some 400, 1)
   \<and> get_target_freq
     (\<lambda>t. mk_fs None
        [(''/sys/devices/system/cpu/cpufreq/policy0/scaling_available_frequencies'',
          ''100 200 300 400\<newline>'')] [''policy0''])
     0 policy0 0 False True = (Some 100, 1)
   \<and> get_target_freq
     (\<lambda>t. mk_fs None
        [(''/sys/devices/system/cpu/cpufreq/policy0/scaling_available_frequencies'',
          ''100 200 300 400\<newline>'')] [''policy0''])
     0 policy0 (3 / 4) False False = (Some 400, 1)
   \<and> get_target_freq
     (\<lambda>t. mk_fs None
        [(''/sys/devices/system/cpu/cpufreq/policy0/scaling_available_frequencies'',
          ''100 200 300 400\<newline>'')] [''policy0''])
     0 policy0 (1 / 2) False False = (Some 300, 1)"
proof -
  let ?w = "\<lambda>t::nat. mk_fs None
        [(''/sys/devices/system/cpu/cpufreq/policy0/scaling_available_frequencies'',
          ''100 200 300 400\<newline>'')] [''policy0'']"
  have h1: "files (?w 0) (avail_path_of policy0) = Some ''100 200 300 400\<newline>''"
    by (simp add: mk_fs_def avail_path_of_def snprintf_def MAX_PATH_def policy0_def)
  have h2: "fgets MAX_FREQ_BUF ''100 200 300 400\<newline>'' = Some ''100 200 300 400\<newline>''"
    by (simp add: fgets_def MAX_FREQ_BUF_def)
  have h3: "[100, 200, 300, 400] = map atoi (take 100 (strtok_all ''100 200 300 400\<newline>''))"
    by code_simp
  have h4: "[100, 200, 300, 400] \<noteq> ([] :: int list)" by simp
  have f: "f32 3 = 3" "f32 2 = 2" by code_simp+
  note c = C3_resolve_sorted_table [where w = ?w and t = 0, OF h1 h2 h3 h4]
  from c [of 1] c [of 0] c [of "3 / 4"] c [of "1 / 2"] show ?thesis
    by (simp add: f)
qed

text \<open>
  C10. On a readable table with at least one parsed entry and a percentile \<open>p\<close> in
  \<open>[0, 1]\<close>, the clamped index lies in \<open>[0, count - 1]\<close>: the access to the table is in
  bounds and the result is one of the parsed entries.
\<close>

theorem C10_index_in_bounds:
  assumes "files (w t) (avail_path_of policy_path) = Some content"
    and "fgets MAX_FREQ_BUF content = Some buf"
    and "freqs = map atoi (take 100 (strtok_all buf))"
    and "1 \<le> length freqs"
    and "0 \<le> p" and "p \<le> 1"
  shows "\<exists>index. percent_index (length freqs) p = Some index
           \<and> 0 \<le> index \<and> index \<le> int (length freqs) - 1
           \<and> get_target_freq w t policy_path p False False = (Some (sort freqs ! nat index), t + 1)
           \<and> sort freqs ! nat index \<in> set freqs"
proof -
  note r = get_target_freq_readable [where w = w and t = t, OF assms(1,2)]
  note s = get_target_freq_tokens_sort [OF assms(3)]
  have n: "0 < length freqs" "length freqs \<le> 100" using assms(3,4) by auto
  define index where "index = min \<lfloor>f32 (of_nat (length freqs) * p)\<rfloor> (int (length freqs) - 1)"
  have pi: "percent_index (length freqs) p = Some index"
    unfolding index_def by (rule percent_index_unit(1) [OF n assms(5,6)])
  have lo: "0 \<le> index" using percent_index_unit(2) [OF n assms(5,6)] n unfolding index_def by simp
  have hi: "index \<le> int (length freqs) - 1" unfolding index_def by simp
  have "nat index < length freqs" using lo hi by linarith
  then have mem: "sort freqs ! nat index \<in> set freqs" by (rule sort_nth_mem)
  have "get_target_freq w t policy_path p False False = (Some (sort freqs ! nat index), t + 1)"
    using n lo by (simp add: r s pi)
  with pi lo hi mem show ?thesis by blast
qed


theorem C10_witness:
  "percent_index 4 (3 / 4) = Some 3
   \<and> get_target_freq
     (\<lambda>t. mk_fs None
        [(''/sys/devices/system/cpu/cpufreq/policy0/scaling_available_frequencies'',
          ''400 300 200 100\<newline>'')] [''policy0''])
     0 policy0 (3 / 4) False False = (Some 400, 1)
   \<and> (400 :: int) \<in> set [400, 300, 200, 100]"
proof -
  let ?w = "\<lambda>t::nat. mk_fs None
        [(''/sys/devices/system/cpu/cpufreq/policy0/scaling_available_frequencies'',
          ''400 300 200 100\<newline>'')] [''policy0'']"
  have h1: "files (?w 0) (avail_path_of policy0) = Some ''400 300 200 100\<newline>''"
    by (simp add: mk_fs_def avail_path_of_def snprintf_def MAX_PATH_def policy0_def)
  have h2: "fgets MAX_FREQ_BUF ''400 300 200 100\<newline>'' = Some ''400 300 200 100\<newline>''"
    by (simp add: fgets_def MAX_FREQ_BUF_def)
  have h3: "[400, 300, 200, 100] = map atoi (take 100 (strtok_all ''400 300 200 100\<newline>''))"
    by code_simp
  have h4: "1 \<le> length [400, 300, 200, 100 :: int]" by simp
  have pi: "percent_index 4 (3 / 4) = Some 3" by code_simp
  from C10_index_in_bounds [where w = ?w and t = 0, OF h1 h2 h3 h4, of "3 / 4"]
  obtain index where i: "percent_index (length [400, 300, 200, 100 :: int]) (3 / 4) = Some index"
    and g: "get_target_freq ?w 0 policy0 (3 / 4) False False =
              (Some (sort [400, 300, 200, 100] ! nat index), 0 + 1)"
    by auto
  have l: "length [400, 300, 200, 100 :: int] = 4" by simp
  from i [unfolded l] pi have "index = 3" by simp
  with g pi show ?thesis by simp
qed

text \<open>
  C8, as stated, fails: only the first 100 tokens are parsed, so a permutation of a longer
  token list can change the result. With 101 tokens, one \<open>2\<close> and a hundred \<open>1\<close>, the
  maximum is 2 when the \<open>2\<close> comes first and 1 when it comes last.
\<close>

theorem C8_counterexample:
  "mset (''2'' # replicate 100 ''1'') = mset (replicate 100 ''1'' @ [''2''])
   \<and> get_target_freq_tokens (''2'' # replicate 100 ''1'') 1 True False = Some 2
   \<and> get_target_freq_tokens (replicate 100 ''1'' @ [''2'']) 1 True False = Some 1"
proof -
  have a: "get_target_freq_tokens (''2'' # replicate 100 ''1'') 1 True False = Some 2"
    unfolding get_target_freq_tokens_sort [OF refl] by code_simp
  have b: "get_target_freq_tokens (replicate 100 ''1'' @ [''2'']) 1 True False = Some 1"
    unfolding get_target_freq_tokens_sort [OF refl] by code_simp
  show ?thesis using a b by simp
qed

text \<open>
  C8, amended. Resolving twice a table that has not changed gives the same value, in
  every mode; and for a table of at most 100 tokens, resolving any permutation of the
  tokens gives the same value as the original order, on the token list and through the
  file.
\<close>

theorem C8_resolution_order_independent:
  "(files (w t1) (avail_path_of pp) = files (w t2) (avail_path_of pp)
      \<and> files (w (t1 + 1)) (cpuinfo_path_of pp) = files (w (t2 + 1)) (cpuinfo_path_of pp)
     \<longrightarrow> fst (get_target_freq w t1 pp p a b) = fst (get_target_freq w t2 pp p a b))
   \<and> (mset tokens' = mset tokens \<and> length tokens \<le> 100
     \<longrightarrow> get_target_freq_tokens tokens' p a b = get_target_freq_tokens tokens p a b)
   \<and> (files (w t1) (avail_path_of pp) = Some content \<and> fgets MAX_FREQ_BUF content = Some buf
      \<and> files (w t2) (avail_path_of pp) = Some content' \<and> fgets MAX_FREQ_BUF content' = Some buf'
      \<and> mset (strtok_all buf') = mset (strtok_all buf) \<and> length (strtok_all buf) \<le> 100
     \<longrightarrow> fst (get_target_freq w t2 pp p a b) = fst (get_target_freq w t1 pp p a b))"
proof (intro conjI impI)
  assume "files (w t1) (avail_path_of pp) = files (w t2) (avail_path_of pp)
      \<and> files (w (t1 + 1)) (cpuinfo_path_of pp) = files (w (t2 + 1)) (cpuinfo_path_of pp)"
  then have e: "files (w t1) (avail_path_of pp) = files (w t2) (avail_path_of pp)"
      "files (w (t1 + 1)) (cpuinfo_path_of pp) = files (w (t2 + 1)) (cpuinfo_path_of pp)"
    by blast+
  show "fst (get_target_freq w t1 pp p a b) = fst (get_target_freq w t2 pp p a b)"
    unfolding get_target_freq_def e
    by (cases "files (w t2) (avail_path_of pp)"; cases "files (w (t2 + 1)) (cpuinfo_path_of pp)";
        simp split: option.splits)
next
  assume "mset tokens' = mset tokens \<and> length tokens \<le> 100"
  then show "get_target_freq_tokens tokens' p a b = get_target_freq_tokens tokens p a b"
    by (intro get_target_freq_tokens_perm) blast+
next
  assume h: "files (w t1) (avail_path_of pp) = Some content \<and> fgets MAX_FREQ_BUF content = Some buf
      \<and> files (w t2) (avail_path_of pp) = Some content' \<and> fgets MAX_FREQ_BUF content' = Some buf'
      \<and> mset (strtok_all buf') = mset (strtok_all buf) \<and> length (strtok_all buf) \<le> 100"
  then have "get_target_freq_tokens (strtok_all buf') p a b = get_target_freq_tokens (strtok_all buf) p a b"
    by (intro get_target_freq_tokens_perm) blast+
  then show "fst (get_target_freq w t2 pp p a b) = fst (get_target_freq w t1 pp p a b)"
    using h by (simp add: get_target_freq_readable [where w = w])
qed


theorem C8_witness:
  "mset [''300'', ''100'', ''400'', ''200''] = mset [''100'', ''200'', ''300'', ''400'']
   \<and> length [''100'', ''200'', ''300'', ''400''] \<le> 100
   \<and> get_target_freq_tokens [''300'', ''100'', ''400'', ''200''] (1 / 2) False False = Some 300
   \<and> get_target_freq_tokens [''100'', ''200'', ''300'', ''400''] (1 / 2) False False = Some 300"
proof -
  have m: "mset [''300'', ''100'', ''400'', ''200''] = mset [''100'', ''200'', ''300'', ''400'']
     \<and> length [''100'', ''200'', ''300'', ''400''] \<le> 100"
    by simp
  have v: "get_target_freq_tokens [''100'', ''200'', ''300'', ''400''] (1 / 2) False False = Some 300"
    unfolding get_target_freq_tokens_sort [OF refl] by code_simp
  from C8_resolution_order_independent [where tokens' = "[''300'', ''100'', ''400'', ''200'']"
      and tokens = "[''100'', ''200'', ''300'', ''400'']" and p = "1 / 2" and a = False and b = False] m v
  show ?thesis by simp
qed

text \<open>
  C5. When the list of available frequencies cannot be opened, the resolver in mode
  AbsoluteMax returns the number read from \<^verbatim>\<open>cpuinfo_max_freq\<close> when that file can be
  opened and holds a number, with no table and no percentile involved; in the modes
  AbsoluteMin and Percentile it returns 0 whatever the fallback file holds. With the
  fallback 1200000: 1200000 for AbsoluteMax, 0 for the others.
\<close>

theorem C5_unreadable_table:
  assumes "files (w t) (avail_path_of policy_path) = None"
  shows "(files (w (t + 1)) (cpuinfo_path_of policy_path) = Some content \<and> parse_int content = Some v
           \<longrightarrow> get_target_freq w t policy_path p True return_abs_min = (Some v, t + 2))
       \<and> get_target_freq w t policy_path p False return_abs_min = (Some 0, t + 1)"
  using assms by (simp add: get_target_freq_def)


theorem C5_witness:
  "get_target_freq
     (\<lambda>t. mk_fs None
        [(''/sys/devices/system/cpu/cpufreq/policy0/cpuinfo_max_freq'', ''1200000\<newline>'')]
        [''policy0''])
     0 policy0 1 True False = (Some 1200000, 2)
   \<and> get_target_freq
     (\<lambda>t. mk_fs None
        [(''/sys/devices/system/cpu/cpufreq/policy0/cpuinfo_max_freq'', ''1200000\<newline>'')]
        [''policy0''])
     0 policy0 0 False True = (Some 0, 1)
   \<and> get_target_freq
     (\<lambda>t. mk_fs None
        [(''/sys/devices/system/cpu/cpufreq/policy0/cpuinfo_max_freq'', ''1200000\<newline>'')]
        [''policy0''])
     0 policy0 (3 / 4) False False = (Some 0, 1)"
proof -
  let ?w = "\<lambda>t::nat. mk_fs None
        [(''/sys/devices/system/cpu/cpufreq/policy0/cpuinfo_max_freq'', ''1200000\<newline>'')]
        [''policy0'']"
  have h: "files (?w 0) (avail_path_of policy0) = None"
    by (simp add: mk_fs_def avail_path_of_def snprintf_def MAX_PATH_def policy0_def)
  have f: "files (?w (0 + 1)) (cpuinfo_path_of policy0) = Some ''1200000\<newline>''"
    by (simp add: mk_fs_def cpuinfo_path_of_def snprintf_def MAX_PATH_def policy0_def)
  have v: "parse_int ''1200000\<newline>'' = Some 1200000" by code_simp
  note c = C5_unreadable_table [where w = ?w and t = 0, OF h]
  from c [of "''1200000\<newline>''" 1200000 1 False] c [of _ _ 0 True] c [of _ _ "3 / 4" False] f v
  show ?thesis by simp
qed




text \<open>
  C6. When the absolute maximum or the absolute minimum of a policy resolves to 0, nothing
  is written for that policy, and the loop goes on with the remaining entries from the
  same trace.
\<close>

theorem C6_skip_unresolved_domain:
  assumes pol: "take 6 d_name = ''policy''"
    and mx: "get_target_freq w (clock s) (policy_path_of d_name) 1 True False = (Some amax, t1)"
    and mn: "get_target_freq w t1 (policy_path_of d_name) 0 False True = (Some amin, t2)"
    and z: "amax = 0 \<or> amin = 0"
  shows "apply_entry w is_high_load d_name s = Some (s\<lparr>clock := t2\<rparr>)
       \<and> trace (s\<lparr>clock := t2\<rparr>) = trace s
       \<and> apply_entries w is_high_load (d_name # rest) s =
           apply_entries w is_high_load rest (s\<lparr>clock := t2\<rparr>)"
  using z by (simp add: apply_entry_bounds [OF pol mx mn])


theorem C6_witness:
  "map_option trace
     (apply_profile
        (\<lambda>t. mk_fs None
           [(''/sys/devices/system/cpu/cpufreq/policy1/scaling_available_frequencies'',
             ''100 200 300 400\<newline>'')] [''policy0'', ''policy1''])
        True \<lparr>clock = 0, trace = [], stdout = []\<rparr>) =
     Some [(''/sys/devices/system/cpu/cpufreq/policy1/scaling_max_freq'', ''400''),
           (''/sys/devices/system/cpu/cpufreq/policy1/scaling_min_freq'', ''400'')]
   \<and> map_option trace
     (apply_entry
        (\<lambda>t. mk_fs None
           [(''/sys/devices/system/cpu/cpufreq/policy1/scaling_available_frequencies'',
             ''100 200 300 400\<newline>'')] [''policy0'', ''policy1''])
        True ''policy0'' \<lparr>clock = 1, trace = [], stdout = []\<rparr>) = Some []"
proof -
  let ?c = "''100 200 300 400\<newline>''"
  let ?w = "\<lambda>t::nat. mk_fs None
           [(''/sys/devices/system/cpu/cpufreq/policy1/scaling_available_frequencies'', ?c)]
           [''policy0'', ''policy1'']"
  let ?s = "\<lparr>clock = 1, trace = [], stdout = []\<rparr>"
  have f0: "files (?w t) (avail_path_of policy0) = None" for t
    by (simp add: mk_fs_def avail_path_of_policy0)
  have f0': "files (?w t) (cpuinfo_path_of policy0) = None" for t
    by (simp add: mk_fs_def cpuinfo_path_of_policy0)
  have f1: "files (?w t) (avail_path_of policy1) = Some ?c" for t
    by (simp add: mk_fs_def avail_path_of_policy1)
  note g = get_target_freq_readable [where w = ?w, OF f1 fgets_table4]
  have pol: "take 6 ''policy0'' = ''policy''" by simp
  have mx: "get_target_freq ?w (clock ?s) (policy_path_of ''policy0'') 1 True False = (Some 0, 3)"
    by (simp add: policy_path_of_policy0 get_target_freq_def f0 f0')
  have mn: "get_target_freq ?w 3 (policy_path_of ''policy0'') 0 False True = (Some 0, 4)"
    by (simp add: policy_path_of_policy0 get_target_freq_def f0 f0')
  have z: "(0 :: int) = 0 \<or> (0 :: int) = 0" by simp
  note c = C6_skip_unresolved_domain [where w = ?w and s = ?s, OF pol mx mn z, of True "[''policy1'']"]
  have pol1: "take 6 ''policy1'' = ''policy''" by simp
  have mx1: "get_target_freq ?w (clock (?s\<lparr>clock := 4\<rparr>)) (policy_path_of ''policy1'') 1 True False = (Some 400, 5)"
    by (simp add: policy_path_of_policy1 g tokens_table4)
  have mn1: "get_target_freq ?w 5 (policy_path_of ''policy1'') 0 False True = (Some 100, 6)"
    by (simp add: policy_path_of_policy1 g tokens_table4)
  have tg1: "get_target_freq ?w (clock (?s\<lparr>clock := 4, clock := 6\<rparr>)) policy1 (3 / 4) False False = (Some 400, 7)"
    by (simp add: g tokens_table4)
  have wr: "writable (?w t) path" for t path by (simp add: mk_fs_def)
  have p1: "map_option trace (apply_entry ?w True ''policy1'' (?s\<lparr>clock := 4\<rparr>)) =
          Some [(''/sys/devices/system/cpu/cpufreq/policy1/scaling_max_freq'', ''400''),
                (''/sys/devices/system/cpu/cpufreq/policy1/scaling_min_freq'', ''400'')]"
    unfolding apply_entry_bounds [OF pol1 mx1 mn1] policy_path_of_policy1
    using apply_bounds_high [OF tg1, of 400 100]
    by (simp add: written_def wr min_node_of_policy1 max_node_of_policy1 dec_int_examples4)
  have d: "dirs (?w 0) SYS_CPU_BASE = Some [''policy0'', ''policy1'']" by (simp add: mk_fs_def)
  have s1: "\<lparr>clock = 0, trace = [], stdout = []\<rparr>\<lparr>clock := clock \<lparr>clock = 0, trace = [], stdout = []\<rparr> + 1\<rparr> = ?s"
    by simp
  have "map_option trace (apply_profile ?w True \<lparr>clock = 0, trace = [], stdout = []\<rparr>) =
          map_option trace (apply_entries ?w True [''policy0'', ''policy1''] ?s)"
    unfolding apply_profile_def d s1 by simp
  also have "\<dots> = map_option trace (apply_entry ?w True ''policy1'' (?s\<lparr>clock := 4\<rparr>))"
    using c by (simp only: apply_entries_single)
  finally show ?thesis using p1 c by simp
qed

text \<open>
  C9. When both absolute bounds are other than 0 but the percentile target resolves to 0,
  the policy is not skipped: the first node is written as usual and the text \<open>0\<close> is
  written to the second one.
\<close>

theorem C9_unresolved_target_written:
  assumes pol: "take 6 d_name = ''policy''"
    and mx: "get_target_freq w (clock s) (policy_path_of d_name) 1 True False = (Some amax, t1)"
    and mn: "get_target_freq w t1 (policy_path_of d_name) 0 False True = (Some amin, t2)"
    and nz: "amax \<noteq> 0 \<and> amin \<noteq> 0"
    and tg: "fst (get_target_freq w t2 (policy_path_of d_name) (if is_high_load then 3 / 4 else 1 / 2)
                    False False) = Some 0"
  shows "map_option trace (apply_entry w is_high_load d_name s) =
     Some (trace s @
       (if is_high_load
        then written w (t2 + 1) (max_node_of (policy_path_of d_name)) amax
           @ (if writable (w (t2 + 2)) (min_node_of (policy_path_of d_name))
              then [(min_node_of (policy_path_of d_name), ''0'')] else [])
        else written w (t2 + 1) (min_node_of (policy_path_of d_name)) amin
           @ (if writable (w (t2 + 2)) (max_node_of (policy_path_of d_name))
              then [(max_node_of (policy_path_of d_name), ''0'')] else [])))"
proof -
  let ?pp = "policy_path_of d_name"
  have z: "snprintf 32 (dec_int 0) = ''0''"
    by (simp add: snprintf_def dec_int_def dec_nat.simps digit_char_def)
  note e = apply_entry_bounds [OF pol mx mn]
  show ?thesis
  proof (cases is_high_load)
    case True
    then have "get_target_freq w t2 ?pp (3 / 4) False False = (Some 0, t2 + 1)"
      using tg get_target_freq_clock [of w t2 ?pp "3 / 4" False]
      by (metis prod.collapse)
    then show ?thesis
      using nz True by (simp add: e apply_bounds_high [where ?t3.0 = "t2 + 1" and target = 0] written_def z)
  next
    case False
    then have "get_target_freq w t2 ?pp (1 / 2) False False = (Some 0, t2 + 1)"
      using tg get_target_freq_clock [of w t2 ?pp "1 / 2" False]
      by (metis prod.collapse)
    then show ?thesis
      using nz False by (simp add: e apply_bounds_low [where ?t3.0 = "t2 + 1" and target = 0] written_def z)
  qed
qed

theorem C9_witness:
  "map_option trace
     (apply_profile
        (\<lambda>t. if t \<le> 2
              then mk_fs None
                [(''/sys/devices/system/cpu/cpufreq/policy0/scaling_available_frequencies'',
                  ''100 200 300 400\<newline>'')] [''policy0'']
              else mk_fs None [] [''policy0''])
        True \<lparr>clock = 0, trace = [], stdout = []\<rparr>) =
     Some [(''/sys/devices/system/cpu/cpufreq/policy0/scaling_max_freq'', ''400''),
           (''/sys/devices/system/cpu/cpufreq/policy0/scaling_min_freq'', ''0'')]"
proof -
  let ?c = "''100 200 300 400\<newline>''"
  let ?w = "\<lambda>t::nat. if t \<le> 2
              then mk_fs None
                [(''/sys/devices/system/cpu/cpufreq/policy0/scaling_available_frequencies'', ?c)]
                [''policy0'']
              else mk_fs None [] [''policy0'']"
  let ?s = "\<lparr>clock = 1, trace = [], stdout = []\<rparr>"
  have f1: "files (?w 1) (avail_path_of policy0) = Some ?c"
    and f2: "files (?w 2) (avail_path_of policy0) = Some ?c"
    and f3: "files (?w 3) (avail_path_of policy0) = None"
    by (simp_all add: mk_fs_def avail_path_of_policy0)
  have pol: "take 6 ''policy0'' = ''policy''" by simp
  have mx: "get_target_freq ?w (clock ?s) (policy_path_of ''policy0'') 1 True False = (Some 400, 2)"
    using get_target_freq_readable [where w = ?w and t = 1, OF f1 fgets_table4, of 1 True False]
    by (simp add: policy_path_of_policy0 tokens_table4)
  have mn: "get_target_freq ?w 2 (policy_path_of ''policy0'') 0 False True = (Some 100, 3)"
    using get_target_freq_readable [where w = ?w and t = 2, OF f2 fgets_table4, of 0 False True]
    by (simp add: policy_path_of_policy0 tokens_table4)
  have nz: "(400 :: int) \<noteq> 0 \<and> (100 :: int) \<noteq> 0" by simp
  have tg: "fst (get_target_freq ?w 3 (policy_path_of ''policy0'') (if True then 3 / 4 else 1 / 2)
                    False False) = Some 0"
    using f3 by (simp add: policy_path_of_policy0 get_target_freq_def)
  note c = C9_unresolved_target_written [where w = ?w and s = ?s, OF pol mx mn nz tg]
  have "map_option trace (apply_profile ?w True \<lparr>clock = 0, trace = [], stdout = []\<rparr>) =
          map_option trace (apply_entry ?w True ''policy0'' ?s)"
    by (simp add: apply_profile_def mk_fs_def apply_entries_single del: apply_entries.simps(2))
  then show ?thesis
    using c
    by (simp add: written_def mk_fs_def policy_path_of_policy0 min_node_of_policy0
          max_node_of_policy0 dec_int_examples4)
qed

text \<open>
  C2. The utilisation of a turn is 0 when the difference of the two totals is 0, and
  otherwise the quotient \<open>100 * (dt - di) / dt\<close> of the code, where \<open>dt\<close> and \<open>di\<close> are the
  differences of the totals and of the idle counters on 64 bits and the arithmetic is in
  double precision. When \<open>di \<le> dt\<close> and \<open>dt\<close> is below \<open>2 ^ 46\<close> the only rounding is the
  last one: the result is the double nearest to the exact quotient. Snapshots (0, 0) and
  (50, 200) give 75; equal totals give 0.
\<close>

theorem C2_utilization:
  "usage st =
     (if curr_total st - prev_total st = 0 then 0
      else f64 (f64 (100 * f64 (of_nat (unat ((curr_total st - prev_total st)
                                               - (curr_idle st - prev_idle st)))))
                / f64 (of_nat (unat (curr_total st - prev_total st)))))
   \<and> (curr_total st = prev_total st \<longrightarrow> usage st = 0)
   \<and> (curr_total st - prev_total st \<noteq> 0
       \<and> curr_idle st - prev_idle st \<le> curr_total st - prev_total st
       \<and> unat (curr_total st - prev_total st) < 2 ^ 46
      \<longrightarrow> usage st =
            f64 (100 * (of_nat (unat (curr_total st - prev_total st))
                        - of_nat (unat (curr_idle st - prev_idle st)))
                 / of_nat (unat (curr_total st - prev_total st))))"
proof (intro conjI impI)
  show "usage st =
     (if curr_total st - prev_total st = 0 then 0
      else f64 (f64 (100 * f64 (of_nat (unat ((curr_total st - prev_total st)
                                               - (curr_idle st - prev_idle st)))))
                / f64 (of_nat (unat (curr_total st - prev_total st)))))"
    by (simp add: usage_def usage_of_def word_greater_zero_iff)
next
  assume "curr_total st = prev_total st"
  then show "usage st = 0" by (simp add: usage_def usage_of_def)
next
  assume "curr_total st - prev_total st \<noteq> 0
       \<and> curr_idle st - prev_idle st \<le> curr_total st - prev_total st
       \<and> unat (curr_total st - prev_total st) < 2 ^ 46"
  then show "usage st =
            f64 (100 * (of_nat (unat (curr_total st - prev_total st))
                        - of_nat (unat (curr_idle st - prev_idle st)))
                 / of_nat (unat (curr_total st - prev_total st)))"
    unfolding usage_def by (intro usage_of_exact) blast+
qed

theorem C2_witness:
  "usage \<lparr>prev_idle = 0, prev_total = 0, curr_idle = 50, curr_total = 200,
          io = \<lparr>clock = 0, trace = [], stdout = []\<rparr>\<rparr> = 75
   \<and> usage \<lparr>prev_idle = 10, prev_total = 200, curr_idle = 50, curr_total = 200,
          io = \<lparr>clock = 0, trace = [], stdout = []\<rparr>\<rparr> = 0"
proof -
  let ?a = "\<lparr>prev_idle = 0, prev_total = 0, curr_idle = 50, curr_total = 200,
          io = \<lparr>clock = 0, trace = [], stdout = []\<rparr>\<rparr>"
  let ?b = "\<lparr>prev_idle = 10, prev_total = 200, curr_idle = 50, curr_total = 200,
          io = \<lparr>clock = 0, trace = [], stdout = []\<rparr>\<rparr>"
  have h: "curr_total ?a - prev_total ?a \<noteq> 0
       \<and> curr_idle ?a - prev_idle ?a \<le> curr_total ?a - prev_total ?a
       \<and> unat (curr_total ?a - prev_total ?a) < 2 ^ 46"
    by simp
  have e: "curr_total ?b = prev_total ?b" by simp
  have f: "f64 75 = 75" by code_simp
  from C2_utilization [of ?a] h have "usage ?a = 75" by (simp add: f)
  moreover from C2_utilization [of ?b] e have "usage ?b = 0" by blast
  ultimately show ?thesis by simp
qed

text \<open>
  C4. A turn of the loop applies the HighLoad profile exactly when the utilisation it
  computed is greater than 40, and the LowLoad profile otherwise; at exactly 40 it applies
  LowLoad. With idle 3 of total 5 the utilisation is 40 and the minimum is written first;
  with idle 45 of total 100 it is 55 and the maximum is written first.
\<close>

theorem C4_threshold:
  "(40 < usage (sample w st) \<longrightarrow> main_iter w st = turn_with w st True)
   \<and> (usage (sample w st) \<le> 40 \<longrightarrow> main_iter w st = turn_with w st False)
   \<and> (usage (sample w st) = 40 \<longrightarrow> main_iter w st = turn_with w st False)"
proof -
  have thr: "f64 (of_int CPU_USAGE_THRESHOLD) = 40" by (rule threshold_double)
  have sel: "main_iter w st = turn_with w st (40 < usage (sample w st))"
    unfolding main_iter_def turn_with_def thr Let_def ..
  have hi: "main_iter w st = turn_with w st True" if "40 < usage (sample w st)"
    using sel that by simp
  have lo: "main_iter w st = turn_with w st False" if "usage (sample w st) \<le> 40"
    using sel that by simp
  from hi lo show ?thesis by simp
qed

theorem C4_witness:
  "usage (sample (world_table10 (\<lambda>t. Some (counters 2 3)))
            \<lparr>prev_idle = 0, prev_total = 0, curr_idle = 0, curr_total = 0,
             io = \<lparr>clock = 0, trace = [], stdout = []\<rparr>\<rparr>) = 40
   \<and> main_iter (world_table10 (\<lambda>t. Some (counters 2 3)))
        \<lparr>prev_idle = 0, prev_total = 0, curr_idle = 0, curr_total = 0,
         io = \<lparr>clock = 0, trace = [], stdout = []\<rparr>\<rparr> =
      Some \<lparr>prev_idle = 3, prev_total = 5, curr_idle = 3, curr_total = 5,
            io = \<lparr>clock = 7,
                  trace = [(''/sys/devices/system/cpu/cpufreq/policy0/scaling_min_freq'', ''100''),
                           (''/sys/devices/system/cpu/cpufreq/policy0/scaling_max_freq'', ''600'')],
                  stdout = []\<rparr>\<rparr>
   \<and> usage (sample (world_table10 (\<lambda>t. Some (counters 55 45)))
            \<lparr>prev_idle = 0, prev_total = 0, curr_idle = 0, curr_total = 0,
             io = \<lparr>clock = 0, trace = [], stdout = []\<rparr>\<rparr>) = 55
   \<and> main_iter (world_table10 (\<lambda>t. Some (counters 55 45)))
        \<lparr>prev_idle = 0, prev_total = 0, curr_idle = 0, curr_total = 0,
         io = \<lparr>clock = 0, trace = [], stdout = []\<rparr>\<rparr> =
      Some \<lparr>prev_idle = 45, prev_total = 100, curr_idle = 45, curr_total = 100,
            io = \<lparr>clock = 7,
                  trace = [(''/sys/devices/system/cpu/cpufreq/policy0/scaling_max_freq'', ''1000''),
                           (''/sys/devices/system/cpu/cpufreq/policy0/scaling_min_freq'', ''800'')],
                  stdout = []\<rparr>\<rparr>"
proof -
  let ?st = "\<lparr>prev_idle = 0, prev_total = 0, curr_idle = 0, curr_total = 0,
             io = \<lparr>clock = 0, trace = [], stdout = []\<rparr>\<rparr>"
  let ?lo = "world_table10 (\<lambda>t. Some (counters 2 3))"
  let ?hi = "world_table10 (\<lambda>t. Some (counters 55 45))"
  have sl: "sample ?lo ?st = ?st\<lparr>curr_idle := 3, curr_total := 5, io := \<lparr>clock = 1, trace = [], stdout = []\<rparr>\<rparr>"
    using sample_readable [of ?lo ?st 2 3] by (simp add: world_table10_def mk_fs_def)
  have sh: "sample ?hi ?st = ?st\<lparr>curr_idle := 45, curr_total := 100, io := \<lparr>clock = 1, trace = [], stdout = []\<rparr>\<rparr>"
    using sample_readable [of ?hi ?st 55 45] by (simp add: world_table10_def mk_fs_def)
  have ul: "usage (sample ?lo ?st) = 40"
    unfolding sl usage_after_sample using usage_of_exact [of 3 5] by (simp add: f64_examples)
  have uh: "usage (sample ?hi ?st) = 55"
    unfolding sh usage_after_sample using usage_of_exact [of 45 100] by (simp add: f64_examples)
  have "main_iter ?lo ?st = turn_with ?lo ?st False"
    using C4_threshold [of ?lo ?st] ul by simp
  then have ml: "main_iter ?lo ?st =
      Some \<lparr>prev_idle = 3, prev_total = 5, curr_idle = 3, curr_total = 5,
            io = \<lparr>clock = 7,
                  trace = [(''/sys/devices/system/cpu/cpufreq/policy0/scaling_min_freq'', ''100''),
                           (''/sys/devices/system/cpu/cpufreq/policy0/scaling_max_freq'', ''600'')],
                  stdout = []\<rparr>\<rparr>"
    by (simp add: turn_with_def sl apply_profile_table10)
  have "main_iter ?hi ?st = turn_with ?hi ?st True"
    using C4_threshold [of ?hi ?st] uh by simp
  then have mh: "main_iter ?hi ?st =
      Some \<lparr>prev_idle = 45, prev_total = 100, curr_idle = 45, curr_total = 100,
            io = \<lparr>clock = 7,
                  trace = [(''/sys/devices/system/cpu/cpufreq/policy0/scaling_max_freq'', ''1000''),
                           (''/sys/devices/system/cpu/cpufreq/policy0/scaling_min_freq'', ''800'')],
                  stdout = []\<rparr>\<rparr>"
    by (simp add: turn_with_def sh apply_profile_table10)
  from ul ml uh mh show ?thesis by blast
qed

text \<open>
  C7, as stated, fails: when \<^verbatim>\<open>/proc/stat\<close> cannot be opened \<^verbatim>\<open>get_cpu_times\<close> returns
  without storing anything, so the current snapshot keeps the counters of the last read
  that succeeded. After one turn that read idle 50 of total 200, a failed read leaves the
  snapshot at (50, 200), not at (0, 0).
\<close>

theorem C7_counterexample:
  "main (world_table10 (stat_once 1)) 1 =
     Some \<lparr>prev_idle = 50, prev_total = 200, curr_idle = 50, curr_total = 200,
           io = \<lparr>clock = 8,
                 trace = [(''/sys/devices/system/cpu/cpufreq/policy0/scaling_max_freq'', ''1000''),
                          (''/sys/devices/system/cpu/cpufreq/policy0/scaling_min_freq'', ''800'')],
                 stdout = started\<rparr>\<rparr>
   \<and> proc_stat (world_table10 (stat_once 1) 8) = None
   \<and> curr_idle (sample (world_table10 (stat_once 1))
        \<lparr>prev_idle = 50, prev_total = 200, curr_idle = 50, curr_total = 200,
           io = \<lparr>clock = 8,
                 trace = [(''/sys/devices/system/cpu/cpufreq/policy0/scaling_max_freq'', ''1000''),
                          (''/sys/devices/system/cpu/cpufreq/policy0/scaling_min_freq'', ''800'')],
                 stdout = started\<rparr>\<rparr>) = 50
   \<and> curr_total (sample (world_table10 (stat_once 1))
        \<lparr>prev_idle = 50, prev_total = 200, curr_idle = 50, curr_total = 200,
           io = \<lparr>clock = 8,
                 trace = [(''/sys/devices/system/cpu/cpufreq/policy0/scaling_max_freq'', ''1000''),
                          (''/sys/devices/system/cpu/cpufreq/policy0/scaling_min_freq'', ''800'')],
                 stdout = started\<rparr>\<rparr>) = 200"
proof -
  let ?w = "world_table10 (stat_once 1)"
  let ?st0 = "\<lparr>prev_idle = 0, prev_total = 0, curr_idle = 0, curr_total = 0,
             io = \<lparr>clock = 1, trace = [], stdout = started\<rparr>\<rparr>"
  let ?st1 = "\<lparr>prev_idle = 50, prev_total = 200, curr_idle = 50, curr_total = 200,
           io = \<lparr>clock = 8,
                 trace = [(''/sys/devices/system/cpu/cpufreq/policy0/scaling_max_freq'', ''1000''),
                          (''/sys/devices/system/cpu/cpufreq/policy0/scaling_min_freq'', ''800'')],
                 stdout = started\<rparr>\<rparr>"
  have i: "main_init ?w = ?st0"
    by (simp add: main_init_def get_cpu_times_def world_table10_def mk_fs_def stat_once_def started_def)
  have s: "sample ?w ?st0 = ?st0\<lparr>curr_idle := 50, curr_total := 200,
              io := \<lparr>clock = 2, trace = [], stdout = started\<rparr>\<rparr>"
    using sample_readable [of ?w ?st0 150 50] by (simp add: world_table10_def mk_fs_def stat_once_def)
  have u: "usage (sample ?w ?st0) = 75"
    unfolding s usage_after_sample using usage_of_exact [of 50 200] by (simp add: f64_examples)
  have mt: "main_iter ?w ?st0 = turn_with ?w ?st0 True"
    unfolding main_iter_turn_with u by simp
  have m: "main_iter ?w ?st0 = Some ?st1"
    unfolding mt turn_with_def s by (simp add: apply_profile_table10)
  have 1: "main ?w 1 = Some ?st1" unfolding main_one i m ..
  have 2: "proc_stat (?w 8) = None" by (simp add: world_table10_def mk_fs_def stat_once_def)
  have 3: "sample ?w ?st1 = ?st1\<lparr>io := (io ?st1)\<lparr>clock := clock (io ?st1) + 1\<rparr>\<rparr>"
    by (rule sample_unreadable) (simp add: world_table10_def mk_fs_def stat_once_def)
  show ?thesis unfolding 3 using 1 2 by simp
qed

text \<open>
  C7, amended. When \<^verbatim>\<open>/proc/stat\<close> cannot be opened, the sampler leaves the current
  snapshot as it was and the program prints nothing. Whenever the total kept equals the
  previous total, the utilisation is 0 by the guard on the difference and the LowLoad
  profile is applied. The two snapshots are equal after every completed turn of the loop,
  and at the start when the baseline read failed too (both are zero then).
\<close>

theorem C7_unreadable_source:
  assumes "proc_stat (w (clock (io st))) = None"
  shows "curr_idle (sample w st) = curr_idle st \<and> curr_total (sample w st) = curr_total st
       \<and> trace (io (sample w st)) = trace (io st) \<and> stdout (io (sample w st)) = stdout (io st)
       \<and> (curr_total st = prev_total st \<longrightarrow>
            usage (sample w st) = 0 \<and> main_iter w st = turn_with w st False)
       \<and> (\<forall>st'. main_iter w st = Some st' \<longrightarrow>
            stdout (io st') = stdout (io st)
            \<and> curr_total st' = prev_total st' \<and> curr_idle st' = prev_idle st')
       \<and> (proc_stat (w 0) = None \<longrightarrow>
            curr_total (main_init w) = prev_total (main_init w)
            \<and> curr_total (main_init w) = 0 \<and> curr_idle (main_init w) = 0)"
proof -
  note s = sample_unreadable [where w = w and st = st, OF assms]
  have u: "usage (sample w st) = 0" if "curr_total st = prev_total st"
    using that by (simp add: s usage_def usage_of_def)
  have m: "main_iter w st = turn_with w st False" if "curr_total st = prev_total st"
    using u [OF that] by (simp add: main_iter_turn_with)
  have i: "curr_total (main_init w) = prev_total (main_init w)
            \<and> curr_total (main_init w) = 0 \<and> curr_idle (main_init w) = 0"
    if "proc_stat (w 0) = None"
    using that by (simp add: main_init_def get_cpu_times_def)
  have a: "curr_idle (sample w st) = curr_idle st" "curr_total (sample w st) = curr_total st"
    "trace (io (sample w st)) = trace (io st)" "stdout (io (sample w st)) = stdout (io st)"
    by (simp_all add: s)
  show ?thesis
    using a u m i main_iter_result [of w st] by blast
qed


theorem C7_witness:
  "proc_stat (world_table10 (stat_once 1) 8) = None
   \<and> usage (sample (world_table10 (stat_once 1))
        \<lparr>prev_idle = 50, prev_total = 200, curr_idle = 50, curr_total = 200,
           io = \<lparr>clock = 8,
                 trace = [(''/sys/devices/system/cpu/cpufreq/policy0/scaling_max_freq'', ''1000''),
                          (''/sys/devices/system/cpu/cpufreq/policy0/scaling_min_freq'', ''800'')],
                 stdout = started\<rparr>\<rparr>) = 0
   \<and> main_iter (world_table10 (stat_once 1))
        \<lparr>prev_idle = 50, prev_total = 200, curr_idle = 50, curr_total = 200,
           io = \<lparr>clock = 8,
                 trace = [(''/sys/devices/system/cpu/cpufreq/policy0/scaling_max_freq'', ''1000''),
                          (''/sys/devices/system/cpu/cpufreq/policy0/scaling_min_freq'', ''800'')],
                 stdout = started\<rparr>\<rparr> =
      Some \<lparr>prev_idle = 50, prev_total = 200, curr_idle = 50, curr_total = 200,
           io = \<lparr>clock = 15,
                 trace = [(''/sys/devices/system/cpu/cpufreq/policy0/scaling_max_freq'', ''1000''),
                          (''/sys/devices/system/cpu/cpufreq/policy0/scaling_min_freq'', ''800''),
                          (''/sys/devices/system/cpu/cpufreq/policy0/scaling_min_freq'', ''100''),
                          (''/sys/devices/system/cpu/cpufreq/policy0/scaling_max_freq'', ''600'')],
                 stdout = started\<rparr>\<rparr>"
proof -
  let ?w = "world_table10 (stat_once 1)"
  let ?st = "\<lparr>prev_idle = 50, prev_total = 200, curr_idle = 50, curr_total = 200,
           io = \<lparr>clock = 8,
                 trace = [(''/sys/devices/system/cpu/cpufreq/policy0/scaling_max_freq'', ''1000''),
                          (''/sys/devices/system/cpu/cpufreq/policy0/scaling_min_freq'', ''800'')],
                 stdout = started\<rparr>\<rparr>"
  have h: "proc_stat (?w (clock (io ?st))) = None" by (simp add: world_table10_def mk_fs_def stat_once_def)
  have e: "curr_total ?st = prev_total ?st" by simp
  note s = sample_unreadable [where w = ?w and st = ?st, OF h]
  from C7_unreadable_source [where w = ?w and st = ?st, OF h] e
  have u: "usage (sample ?w ?st) = 0" and m: "main_iter ?w ?st = turn_with ?w ?st False"
    by blast+
  have "turn_with ?w ?st False =
      Some \<lparr>prev_idle = 50, prev_total = 200, curr_idle = 50, curr_total = 200,
           io = \<lparr>clock = 15,
                 trace = [(''/sys/devices/system/cpu/cpufreq/policy0/scaling_max_freq'', ''1000''),
                          (''/sys/devices/system/cpu/cpufreq/policy0/scaling_min_freq'', ''800''),
                          (''/sys/devices/system/cpu/cpufreq/policy0/scaling_min_freq'', ''100''),
                          (''/sys/devices/system/cpu/cpufreq/policy0/scaling_max_freq'', ''600'')],
                 stdout = started\<rparr>\<rparr>"
    unfolding turn_with_def s by (simp add: apply_profile_table10)
  with h u m show ?thesis by simp
qed


text \<open>
  The turn that the amended statement leaves out: the baseline read succeeds and the first
  read of the loop fails. The current snapshot is then still (0, 0) from its
  initialisation, the differences wrap around, and the utilisation is 100.
\<close>

lemma first_turn_after_baseline:
  "main_init (world_table10 (stat_once 0)) =
     \<lparr>prev_idle = 50, prev_total = 200, curr_idle = 0, curr_total = 0,
      io = \<lparr>clock = 1, trace = [], stdout = started\<rparr>\<rparr>
   \<and> proc_stat (world_table10 (stat_once 0) 1) = None
   \<and> usage (sample (world_table10 (stat_once 0))
        \<lparr>prev_idle = 50, prev_total = 200, curr_idle = 0, curr_total = 0,
         io = \<lparr>clock = 1, trace = [], stdout = started\<rparr>\<rparr>) = 100"
proof -
  let ?w = "world_table10 (stat_once 0)"
  let ?st = "\<lparr>prev_idle = 50, prev_total = 200, curr_idle = 0, curr_total = 0,
         io = \<lparr>clock = 1, trace = [], stdout = started\<rparr>\<rparr>"
  have i: "main_init ?w = ?st"
    by (simp add: main_init_def get_cpu_times_def world_table10_def mk_fs_def stat_once_def started_def
          counters_def)
  have h: "proc_stat (?w (clock (io ?st))) = None" by (simp add: world_table10_def mk_fs_def stat_once_def)
  note s = sample_unreadable [where w = ?w and st = ?st, OF h]
  have f: "f64 18446744073709551466 = 18446744073709551616"
    "f64 18446744073709551416 = 18446744073709551616"
    "f64 1844674407370955161600 = 1844674407370955161600"
    "f64 100 = 100"
    by code_simp+
  have w: "unat ((0 :: u64) - 200 - (0 - 50)) = 18446744073709551466"
    "unat ((0 :: u64) - 200) = 18446744073709551416" "(0 :: u64) - 200 \<noteq> 0"
    by simp_all
  have "usage (sample ?w ?st) = 100"
    unfolding s by (simp add: usage_def usage_of_def word_greater_zero_iff w f)
  with i h show ?thesis by simp
qed

end
